theory Spec2Isabelle
  imports Complex_Main "HOL-Library.Sublist"
begin

section \<open>Engagement-segment selection of the clips pipeline\<close>

text \<open>
  A shallow embedding of the selection core of \<^verbatim>\<open>clips.py\<close>: the methods
  \<^verbatim>\<open>analyze_engagement\<close>, \<^verbatim>\<open>_combine_segments\<close>, \<^verbatim>\<open>_calculate_engagement_score\<close>,
  \<^verbatim>\<open>_analyze_text_engagement\<close> and \<^verbatim>\<open>_analyze_audio_engagement\<close> of the class
  \<^verbatim>\<open>YouTubeToShortsPipeline\<close>. The leading underscore of the private methods is dropped,
  since an Isabelle name starts with a letter.

  Python floats are modelled as \<^typ>\<open>real\<close>: rounding, infinities and NaN are outside the
  model. A Python \<^verbatim>\<open>str\<close> is a sequence of Unicode code points, modelled as a list of
  code-point numbers.
\<close>

subsection \<open>Strings\<close>

type_synonym pystr = "nat list"

definition ascii :: "string \<Rightarrow> pystr" where
  "ascii s = map of_char s"

text \<open>
  The code points for which \<^verbatim>\<open>str.isspace\<close> holds; \<^verbatim>\<open>str.strip()\<close> and
  \<^verbatim>\<open>str.split()\<close> without arguments work on these.
\<close>

definition is_space :: "nat \<Rightarrow> bool" where
  "is_space c \<longleftrightarrow>
     (9 \<le> c \<and> c \<le> 13) \<or> (28 \<le> c \<and> c \<le> 32) \<or> c = 133 \<or> c = 160 \<or> c = 5760 \<or>
     (8192 \<le> c \<and> c \<le> 8202) \<or> c = 8232 \<or> c = 8233 \<or> c = 8239 \<or> c = 8287 \<or> c = 12288"

definition py_strip :: "pystr \<Rightarrow> pystr" where
  "py_strip t = rev (dropWhile is_space (rev (dropWhile is_space t)))"

subsection \<open>Data model\<close>

text \<open>
  A transcript segment is the dict Whisper produces, of which the code reads the keys
  \<^verbatim>\<open>'start'\<close>, \<^verbatim>\<open>'end'\<close> and \<^verbatim>\<open>'text'\<close>. It has no key \<^verbatim>\<open>'source'\<close>.
\<close>

record segment =
  seg_start :: real
  seg_end :: real
  seg_text :: pystr

text \<open>
  A member of the candidate pool \<^verbatim>\<open>all_candidates\<close>: either a dict built by the merger,
  which has the key \<^verbatim>\<open>'source'\<close>, or a transcript segment, which has not
  (\<open>cand_source = None\<close>).
\<close>

record candidate =
  cand_start :: real
  cand_end :: real
  cand_text :: pystr
  cand_source :: "string option"

definition as_candidate :: "segment \<Rightarrow> candidate" where
  "as_candidate seg =
     \<lparr>cand_start = seg_start seg, cand_end = seg_end seg, cand_text = seg_text seg,
      cand_source = None\<rparr>"

subsection \<open>The segment merger\<close>

text \<open>The local variables of the loop of \<^verbatim>\<open>_combine_segments\<close>.\<close>

record merge_state =
  combined :: "candidate list"
  current_segments :: "segment list"
  current_start :: "real option"
  current_text :: pystr

definition merge_init :: merge_state where
  "merge_init = \<lparr>combined = [], current_segments = [], current_start = None, current_text = []\<rparr>"

text \<open>
  The start of the running group once the segment has joined it, and the value of
  \<^verbatim>\<open>current_duration\<close>.
\<close>

definition group_start :: "merge_state \<Rightarrow> segment \<Rightarrow> real" where
  "group_start st seg = (case current_start st of None \<Rightarrow> seg_start seg | Some s \<Rightarrow> s)"

definition current_duration :: "merge_state \<Rightarrow> segment \<Rightarrow> real" where
  "current_duration st seg = seg_end seg - group_start st seg"

text \<open>
  The test \<^verbatim>\<open>current_duration >= target_duration or segment == segments[-1]\<close>. The
  comparison \<^verbatim>\<open>==\<close> of two dicts is by value. The loop body only runs when
  \<^verbatim>\<open>segments\<close> is not empty, so \<^verbatim>\<open>segments[-1]\<close> does not raise.
\<close>

definition closes :: "real \<Rightarrow> segment list \<Rightarrow> merge_state \<Rightarrow> segment \<Rightarrow> bool" where
  "closes target_duration segments st seg \<longleftrightarrow>
     current_duration st seg \<ge> target_duration \<or> seg = last segments"

text \<open>One iteration of the loop body.\<close>

definition combine_step :: "real \<Rightarrow> segment list \<Rightarrow> merge_state \<Rightarrow> segment \<Rightarrow> merge_state" where
  "combine_step target_duration segments st seg =
     (let start' = group_start st seg;
          segments' = current_segments st @ [seg];
          text' = current_text st @ [32] @ py_strip (seg_text seg)
      in if closes target_duration segments st seg then
           \<lparr>combined =
              (if current_duration st seg \<ge> 10 then
                 combined st @
                   [\<lparr>cand_start = start', cand_end = seg_end seg, cand_text = py_strip text',
                     cand_source = Some ''combined''\<rparr>]
               else combined st),
            current_segments = [], current_start = None, current_text = []\<rparr>
         else
           \<lparr>combined = combined st, current_segments = segments',
            current_start = Some start', current_text = text'\<rparr>)"

definition combine_segments :: "segment list \<Rightarrow> real \<Rightarrow> candidate list" where
  "combine_segments segments target_duration =
     combined (foldl (combine_step target_duration segments) merge_init segments)"

text \<open>
  The text of a running group: each segment's stripped text behind a space, as
  \<^verbatim>\<open>current_text\<close> accumulates it.
\<close>

definition group_text :: "segment list \<Rightarrow> pystr" where
  "group_text xs = concat (map (\<lambda>s. [32] @ py_strip (seg_text s)) xs)"

text \<open>
  An observation of the loop, for stating when a group closes: for each segment in turn,
  whether the test of the loop body holds there and the value of \<^verbatim>\<open>current_duration\<close>.
\<close>

fun close_trace :: "real \<Rightarrow> segment list \<Rightarrow> merge_state \<Rightarrow> segment list \<Rightarrow> (bool \<times> real) list" where
  "close_trace target_duration segments st [] = []"
| "close_trace target_duration segments st (seg # rest) =
     (closes target_duration segments st seg, current_duration st seg) #
     close_trace target_duration segments (combine_step target_duration segments st seg) rest"

text \<open>
  The merger as the specification words it: a group closes when the duration reaches the
  target or when the segment is the last one of the input by position.
\<close>

fun merge_by_position :: "real \<Rightarrow> merge_state \<Rightarrow> segment list \<Rightarrow> candidate list" where
  "merge_by_position target_duration st [] = combined st"
| "merge_by_position target_duration st (seg # rest) =
     (let start' = group_start st seg;
          text' = current_text st @ [32] @ py_strip (seg_text seg)
      in if current_duration st seg \<ge> target_duration \<or> rest = [] then
           merge_by_position target_duration
             \<lparr>combined =
                (if current_duration st seg \<ge> 10 then
                   combined st @
                     [\<lparr>cand_start = start', cand_end = seg_end seg, cand_text = py_strip text',
                       cand_source = Some ''combined''\<rparr>]
                 else combined st),
              current_segments = [], current_start = None, current_text = []\<rparr> rest
         else
           merge_by_position target_duration
             \<lparr>combined = combined st, current_segments = current_segments st @ [seg],
              current_start = Some start', current_text = text'\<rparr> rest)"

subsection \<open>External collaborators\<close>

text \<open>
  The library calls whose results the scorers consume:
  \<^verbatim>\<open>TextBlob(text).sentiment.polarity\<close>,
  \<^verbatim>\<open>librosa.feature.spectral_centroid(y=segment_audio, sr=sample_rate)[0]\<close> and
  \<^verbatim>\<open>librosa.feature.zero_crossing_rate(segment_audio)[0]\<close>, the last two a row of
  per-frame values.
\<close>

record collaborators =
  sentiment :: "pystr \<Rightarrow> real"
  spectral_centroid :: "real list \<Rightarrow> int \<Rightarrow> real list"
  zero_crossing_rate :: "real list \<Rightarrow> real list"

subsection \<open>The text scorer\<close>

text \<open>
  \<^verbatim>\<open>str.lower()\<close> on the ASCII letters. The case mapping of code points beyond ASCII is
  not modelled; none of them is mapped to a letter of the laughter patterns.
\<close>

definition lower_char :: "nat \<Rightarrow> nat" where
  "lower_char c = (if 65 \<le> c \<and> c \<le> 90 then c + 32 else c)"

definition py_lower :: "pystr \<Rightarrow> pystr" where
  "py_lower t = map lower_char t"

text \<open>
  \<^verbatim>\<open>str.count(sub)\<close>: the text is scanned from the left, and after a match the scan
  resumes behind the match. The first argument of \<open>count_scan\<close> is the number of
  code points of the last match still to be passed over.
\<close>

fun count_scan :: "nat \<Rightarrow> pystr \<Rightarrow> pystr \<Rightarrow> nat" where
  "count_scan k [] p = 0"
| "count_scan (Suc k) (x # xs) p = count_scan k xs p"
| "count_scan 0 (x # xs) p =
     (if prefix p (x # xs) then 1 + count_scan (length p - 1) xs p else count_scan 0 xs p)"

definition py_count :: "pystr \<Rightarrow> pystr \<Rightarrow> nat" where
  "py_count t p = (if p = [] then length t + 1 else count_scan 0 t p)"

definition laughter_patterns :: "pystr list" where
  "laughter_patterns =
     [ascii ''haha'', ascii ''lol'', ascii ''lmao'', [128514], [128516], [128518]]"

definition laughter_count :: "pystr \<Rightarrow> nat" where
  "laughter_count t = sum_list (map (py_count (py_lower t)) laughter_patterns)"

definition laughter_contribution :: "pystr \<Rightarrow> real" where
  "laughter_contribution t = min (real (laughter_count t) * 0.1) 0.2"

text \<open>\<^verbatim>\<open>str.split()\<close> without arguments: the maximal runs of code points that are not
  whitespace. The first argument is the run being read.\<close>

fun split_scan :: "pystr \<Rightarrow> pystr \<Rightarrow> pystr list" where
  "split_scan w [] = (if w = [] then [] else [w])"
| "split_scan w (c # cs) =
     (if is_space c then (if w = [] then split_scan [] cs else w # split_scan [] cs)
      else split_scan (w @ [c]) cs)"

definition py_split :: "pystr \<Rightarrow> pystr list" where
  "py_split t = split_scan [] t"

text \<open>\<^verbatim>\<open>len(re.findall(r'\?', text))\<close> and \<^verbatim>\<open>len(re.findall(r'!', text))\<close>.\<close>

definition questions :: "pystr \<Rightarrow> nat" where
  "questions t = length (filter (\<lambda>c. c = 63) t)"

definition exclamations :: "pystr \<Rightarrow> nat" where
  "exclamations t = length (filter (\<lambda>c. c = 33) t)"

definition analyze_text_engagement :: "collaborators \<Rightarrow> pystr \<Rightarrow> real" where
  "analyze_text_engagement env t =
     (if t = [] then 0
      else
        let score = 0;
            score = score + \<bar>sentiment env t\<bar> * 0.3;
            score = score + min (real (questions t) * 0.2) 0.3;
            score = score + min (real (exclamations t) * 0.15) 0.2;
            score = score + laughter_contribution t;
            word_count = length (py_split t);
            score = (if 5 \<le> word_count \<and> word_count \<le> 50 then score + 0.1 else score)
        in min score 1)"

subsection \<open>The audio scorer\<close>

text \<open>\<^verbatim>\<open>int(x)\<close> of a float: truncation towards zero.\<close>

definition py_int :: "real \<Rightarrow> int" where
  "py_int x = (if 0 \<le> x then \<lfloor>x\<rfloor> else \<lceil>x\<rceil>)"

text \<open>
  The slice \<^verbatim>\<open>xs[a:b]\<close>: a negative bound counts from the end, and a bound outside the
  array is clipped to it.
\<close>

definition slice_bound :: "nat \<Rightarrow> int \<Rightarrow> nat" where
  "slice_bound n i = (if i < 0 then nat (max (i + int n) 0) else min (nat i) n)"

definition py_slice :: "'a list \<Rightarrow> int \<Rightarrow> int \<Rightarrow> 'a list" where
  "py_slice xs a b = drop (slice_bound (length xs) a) (take (slice_bound (length xs) b) xs)"

text \<open>\<^verbatim>\<open>np.mean\<close> of a row. Of an empty row numpy gives NaN, which is outside the model;
  the scorer takes no mean of the empty slice.\<close>

definition np_mean :: "real list \<Rightarrow> real" where
  "np_mean xs = sum_list xs / real (length xs)"

definition segment_audio :: "real list \<Rightarrow> int \<Rightarrow> real \<Rightarrow> real \<Rightarrow> real list" where
  "segment_audio audio sample_rate start_time end_time =
     (let start_sample = py_int (start_time * real_of_int sample_rate);
          end_sample = py_int (end_time * real_of_int sample_rate)
      in py_slice audio start_sample end_sample)"

definition analyze_audio_engagement ::
    "collaborators \<Rightarrow> real list \<Rightarrow> int \<Rightarrow> real \<Rightarrow> real \<Rightarrow> real" where
  "analyze_audio_engagement env audio sample_rate start_time end_time =
     (let seg_audio = segment_audio audio sample_rate start_time end_time
      in if length seg_audio = 0 then 0
         else
           let score = 0;
               rms = sqrt (np_mean (map (\<lambda>x. x\<^sup>2) seg_audio));
               score = score + min (rms * 10) 0.4;
               avg_centroid = np_mean (spectral_centroid env seg_audio sample_rate);
               score = score + min (avg_centroid / 5000) 0.3;
               avg_zcr = np_mean (zero_crossing_rate env seg_audio);
               score = score + min (avg_zcr * 2) 0.3
           in min score 1)"

subsection \<open>The fused score\<close>

definition calculate_engagement_score ::
    "collaborators \<Rightarrow> pystr \<Rightarrow> real list \<Rightarrow> int \<Rightarrow> real \<Rightarrow> real \<Rightarrow> real" where
  "calculate_engagement_score env t audio sample_rate start_time end_time =
     (let score = 0;
          text_score = analyze_text_engagement env t;
          score = score + text_score * 0.4;
          audio_score = analyze_audio_engagement env audio sample_rate start_time end_time;
          score = score + audio_score * 0.6
      in min score 1)"

text \<open>The clamp of the specification.\<close>

definition clamp :: "real \<Rightarrow> real \<Rightarrow> real \<Rightarrow> real" where
  "clamp x lo hi = max lo (min x hi)"

subsection \<open>The candidate selector\<close>

text \<open>An entry of the list \<^verbatim>\<open>analyze_engagement\<close> returns.\<close>

record scored =
  start_time :: real
  end_time :: real
  clip_text :: pystr
  engagement_score :: real
  duration :: real
  source :: string

datatype py_error = ZeroDivisionError

definition py_div :: "real \<Rightarrow> nat \<Rightarrow> py_error + real" where
  "py_div a n = (if n = 0 then Inl ZeroDivisionError else Inr (a / real n))"

text \<open>The body of the loop over \<^verbatim>\<open>all_candidates\<close>.\<close>

definition score_candidate :: "collaborators \<Rightarrow> real list \<Rightarrow> int \<Rightarrow> candidate \<Rightarrow> scored" where
  "score_candidate env y sr c =
     (let start' = cand_start c;
          end' = cand_end c;
          text' = py_strip (cand_text c);
          duration' = end' - start';
          score' = calculate_engagement_score env text' y sr start' end'
      in \<lparr>start_time = start', end_time = end', clip_text = text', engagement_score = score',
          duration = duration',
          source = (case cand_source c of None \<Rightarrow> ''unknown'' | Some s \<Rightarrow> s)\<rparr>)"

text \<open>
  \<^verbatim>\<open>segments.sort(key=lambda x: x['engagement_score'], reverse=True)\<close>: Python's sort is
  stable, also with \<^verbatim>\<open>reverse=True\<close>, so it is the stable sort on the negated key.
\<close>

definition sort_by_score :: "scored list \<Rightarrow> scored list" where
  "sort_by_score segments = sort_key (\<lambda>x. - engagement_score x) segments"

definition suitable :: "scored \<Rightarrow> bool" where
  "suitable seg \<longleftrightarrow> 10 \<le> duration seg \<and> duration seg \<le> 60"

definition all_candidates :: "segment list \<Rightarrow> candidate list" where
  "all_candidates whisper_segments =
     (let combined_segments = combine_segments whisper_segments 30;
          long_segments = filter (\<lambda>seg. seg_end seg - seg_start seg \<ge> 10) whisper_segments
      in combined_segments @ map as_candidate long_segments)"

text \<open>
  The waveform \<open>y\<close> and the sample rate \<open>sr\<close> are what \<^verbatim>\<open>librosa.load\<close> returned, and
  \<open>whisper_segments\<close> is \<^verbatim>\<open>transcript_data.get('segments', [])\<close>. The average duration is
  only logged, but its division is evaluated.
\<close>

definition analyze_engagement ::
    "collaborators \<Rightarrow> segment list \<Rightarrow> real list \<Rightarrow> int \<Rightarrow> py_error + scored list" where
  "analyze_engagement env whisper_segments y sr =
     (if whisper_segments = [] then Inr []
      else
        case py_div (sum_list (map (\<lambda>seg. seg_end seg - seg_start seg) whisper_segments))
               (length whisper_segments) of
          Inl e \<Rightarrow> Inl e
        | Inr avg_duration \<Rightarrow>
            let segments = map (score_candidate env y sr) (all_candidates whisper_segments);
                segments = sort_by_score segments;
                suitable_segments = filter suitable segments
            in Inr (take 10 suitable_segments))"

subsection \<open>Occurrences as the specification counts them\<close>

text \<open>
  The number of positions of the text at which the pattern occurs, overlapping
  occurrences included, and the laughter count built on it.
\<close>

fun occurrences :: "pystr \<Rightarrow> pystr \<Rightarrow> nat" where
  "occurrences [] p = 0"
| "occurrences (x # xs) p = (if prefix p (x # xs) then 1 else 0) + occurrences xs p"

definition laughter_occurrences :: "pystr \<Rightarrow> nat" where
  "laughter_occurrences t = sum_list (map (occurrences (py_lower t)) laughter_patterns)"

subsection \<open>Patterns that cannot overlap themselves\<close>

text \<open>
  A pattern is unbordered when no proper non-empty prefix of it is also a suffix of it; two
  occurrences of such a pattern never overlap.
\<close>

definition unbordered :: "pystr \<Rightarrow> bool" where
  "unbordered p \<longleftrightarrow> list_all (\<lambda>k. take k p \<noteq> drop (length p - k) p) [1..<length p]"

subsection \<open>Concrete inputs\<close>

definition quiet_env :: collaborators where
  "quiet_env = \<lparr>sentiment = (\<lambda>t. 0), spectral_centroid = (\<lambda>a sr. [0]),
     zero_crossing_rate = (\<lambda>a. [0])\<rparr>"

text \<open>
  A sentiment collaborator that, like TextBlob, finds no polarity in a text without words.
\<close>

definition blob_env :: collaborators where
  "blob_env = \<lparr>sentiment = (\<lambda>t. if list_all is_space t then 0 else 1/2),
     spectral_centroid = (\<lambda>a sr. [0]), zero_crossing_rate = (\<lambda>a. [0])\<rparr>"

definition spoken :: "real \<Rightarrow> real \<Rightarrow> string \<Rightarrow> segment" where
  "spoken a b s = \<lparr>seg_start = a, seg_end = b, seg_text = ascii s\<rparr>"

definition restart :: "segment list" where
  "restart = [spoken 0 4 ''a'', spoken 4 35 ''b'', spoken 35 38 ''c'']"

definition twice :: "segment list" where
  "twice = [spoken 0 15 ''hi'', spoken 0 15 ''hi'']"

definition talk :: "segment list" where
  "talk = [spoken 0 12 ''Wow!'', spoken 12 20 ''No?'', spoken 20 45 ''Ha?!'']"

definition single :: "segment list" where
  "single = [spoken 0 12 ''hi'']"

definition broken :: "segment list" where
  "broken = [spoken 0 20 ''a'', spoken 20 8 ''b'']"

definition stumble :: "segment list" where
  "stumble = [spoken 0 12 ''a'', spoken 12 12 ''um'', spoken 12 25 ''b'']"

definition backward :: "segment list" where
  "backward = [spoken 0 20 ''a'', spoken 20 15 ''b'']"

definition loud_env :: collaborators where
  "loud_env = \<lparr>sentiment = (\<lambda>t. 1/2), spectral_centroid = (\<lambda>a sr. [1000, 2000]),
     zero_crossing_rate = (\<lambda>a. [1/10, 1/20])\<rparr>"

definition tone :: "real list" where
  "tone = [1/50, - 1/50, 1/50, - 1/50]"

section \<open>Properties\<close>

subsection \<open>Evaluation on concrete inputs\<close>

lemmas merger_eval = combine_segments_def combine_step_def closes_def current_duration_def
  group_start_def merge_init_def spoken_def ascii_def py_strip_def is_space_def Let_def

lemma combine_restart:
  "combine_segments restart 30 =
     [\<lparr>cand_start = 0, cand_end = 35, cand_text = [97, 32, 98],
       cand_source = Some ''combined''\<rparr>]"
  by (simp add: restart_def merger_eval)

lemma trace_restart:
  "close_trace 30 restart merge_init restart = [(False, 4), (True, 35), (True, 3)]"
  by (simp add: restart_def merger_eval)

subsection \<open>The merger\<close>

lemma combined_combine_step:
  "combined (combine_step T segs st x) =
     combined st @
       (if closes T segs st x \<and> 10 \<le> current_duration st x then
          [\<lparr>cand_start = group_start st x, cand_end = seg_end x,
            cand_text = py_strip (current_text st @ [32] @ py_strip (seg_text x)),
            cand_source = Some ''combined''\<rparr>]
        else [])"
  by (simp add: combine_step_def Let_def)

lemma durations_foldl:
  "map (\<lambda>c. cand_end c - cand_start c) (combined (foldl (combine_step T segs) st xs)) =
   map (\<lambda>c. cand_end c - cand_start c) (combined st) @
     map snd (filter (\<lambda>(closed, d). closed \<and> 10 \<le> d) (close_trace T segs st xs))"
proof (induction xs arbitrary: st)
  case Nil
  show ?case by simp
next
  case (Cons x xs)
  show ?case
    by (simp add: Cons.IH combined_combine_step current_duration_def)
qed

lemma durations_combine_segments:
  "map (\<lambda>c. cand_end c - cand_start c) (combine_segments segs T) =
     map snd (filter (\<lambda>(closed, d). closed \<and> 10 \<le> d) (close_trace T segs merge_init segs))"
  by (simp add: combine_segments_def durations_foldl) (simp add: merge_init_def)

lemma combine_segments_floor:
  assumes "c \<in> set (combine_segments segs T)"
  shows "10 \<le> cand_end c - cand_start c"
proof -
  from assms have "cand_end c - cand_start c \<in>
      set (map (\<lambda>c. cand_end c - cand_start c) (combine_segments segs T))"
    by force
  then show ?thesis
    unfolding durations_combine_segments by auto
qed

lemma sources_foldl:
  "list_all (\<lambda>c. cand_source c = Some ''combined'') (combined st) \<Longrightarrow>
   list_all (\<lambda>c. cand_source c = Some ''combined'')
     (combined (foldl (combine_step T segs) st xs))"
  by (induction xs arbitrary: st) (simp_all add: combined_combine_step)

lemma combine_segments_source:
  "list_all (\<lambda>c. cand_source c = Some ''combined'') (combine_segments segs T)"
  unfolding combine_segments_def by (rule sources_foldl) (simp add: merge_init_def)

text \<open>
  When the value of the last segment occurs nowhere before the last position, the test
  by value is the test by position, and the merger is the one the specification words.
\<close>

lemma last_by_value_is_last_by_position:
  assumes "segs = pre @ x # rest" and "last segs \<notin> set (butlast segs)"
  shows "x = last segs \<longleftrightarrow> rest = []"
proof (cases "rest = []")
  case True
  with assms(1) show ?thesis by simp
next
  case False
  with assms(1) have "x \<in> set (butlast segs)"
    by (simp add: butlast_append)
  with assms(2) False show ?thesis by auto
qed

lemma merge_by_position_step:
  assumes "x = last segs \<longleftrightarrow> rest = []"
  shows "merge_by_position T st (x # rest) = merge_by_position T (combine_step T segs st x) rest"
  by (simp add: combine_step_def closes_def assms Let_def)

lemma foldl_merge_by_position:
  assumes "segs = pre @ rest" and "last segs \<notin> set (butlast segs)"
  shows "combined (foldl (combine_step T segs) st rest) = merge_by_position T st rest"
  using assms(1)
proof (induction rest arbitrary: pre st)
  case Nil
  show ?case by simp
next
  case (Cons x rest)
  have pos: "x = last segs \<longleftrightarrow> rest = []"
    using Cons.prems assms(2) by (rule last_by_value_is_last_by_position)
  have next_split: "segs = (pre @ [x]) @ rest"
    using Cons.prems by simp
  show ?case
    by (simp only: foldl_Cons Cons.IH [OF next_split] merge_by_position_step [OF pos])
qed

lemma combine_segments_by_position:
  assumes "last segs \<notin> set (butlast segs)"
  shows "combine_segments segs T = merge_by_position T merge_init segs"
  unfolding combine_segments_def
  by (rule foldl_merge_by_position [where pre = "[]"]) (simp_all add: assms)

text \<open>
  A group that runs from the first segment to the last one of the input: no segment before
  the last reaches the target duration or equals the last segment.
\<close>

lemma combine_step_cases:
  "combine_step T segs st m =
     (if closes T segs st m then
        \<lparr>combined =
           (if 10 \<le> seg_end m - group_start st m then
              combined st @
                [\<lparr>cand_start = group_start st m, cand_end = seg_end m,
                  cand_text = py_strip (current_text st @ [32] @ py_strip (seg_text m)),
                  cand_source = Some ''combined''\<rparr>]
            else combined st),
         current_segments = [], current_start = None, current_text = []\<rparr>
      else
        \<lparr>combined = combined st, current_segments = current_segments st @ [m],
         current_start = Some (group_start st m),
         current_text = current_text st @ [32] @ py_strip (seg_text m)\<rparr>)"
  by (simp add: combine_step_def current_duration_def Let_def)

lemma foldl_join:
  assumes "current_start st = Some g"
    and "list_all (\<lambda>x. seg_end x - g < T \<and> x \<noteq> last segs) xs"
  shows "foldl (combine_step T segs) st xs =
           \<lparr>combined = combined st, current_segments = current_segments st @ xs,
            current_start = Some g, current_text = current_text st @ group_text xs\<rparr>"
  using assms
proof (induction xs arbitrary: st)
  case Nil
  then show ?case by (simp add: group_text_def)
next
  case (Cons x xs)
  let ?st = "\<lparr>combined = combined st, current_segments = current_segments st @ [x],
         current_start = Some g, current_text = current_text st @ [32] @ py_strip (seg_text x)\<rparr>"
  from Cons.prems have "\<not> closes T segs st x" and start: "group_start st x = g"
    by (simp_all add: closes_def current_duration_def group_start_def)
  then have step: "combine_step T segs st x = ?st"
    by (simp add: combine_step_cases)
  have "foldl (combine_step T segs) ?st xs =
      \<lparr>combined = combined ?st, current_segments = current_segments ?st @ xs,
       current_start = Some g, current_text = current_text ?st @ group_text xs\<rparr>"
    using Cons.prems by (intro Cons.IH) simp_all
  then show ?case
    by (simp add: step group_text_def)
qed

lemma foldl_join_init:
  assumes "list_all (\<lambda>x. seg_end x - seg_start (hd (xs @ [m])) < T \<and> x \<noteq> last segs) xs"
    and "xs \<noteq> []"
  shows "foldl (combine_step T segs) merge_init xs =
           \<lparr>combined = [], current_segments = xs,
            current_start = Some (seg_start (hd (xs @ [m]))), current_text = group_text xs\<rparr>"
proof -
  from assms(2) obtain x rest where xs: "xs = x # rest"
    by (cases xs) auto
  let ?st = "\<lparr>combined = [], current_segments = [x], current_start = Some (seg_start x),
     current_text = [32] @ py_strip (seg_text x)\<rparr>"
  from assms(1) have "\<not> closes T segs merge_init x"
    by (simp add: xs closes_def current_duration_def group_start_def merge_init_def)
  then have step: "combine_step T segs merge_init x = ?st"
    by (simp add: combine_step_cases group_start_def merge_init_def)
  have "foldl (combine_step T segs) ?st rest =
      \<lparr>combined = combined ?st, current_segments = current_segments ?st @ rest,
       current_start = Some (seg_start x), current_text = current_text ?st @ group_text rest\<rparr>"
    using assms(1) by (intro foldl_join) (simp_all add: xs)
  then show ?thesis
    by (simp add: xs step group_text_def)
qed

lemma combine_single_group:
  assumes "list_all (\<lambda>x. seg_end x - seg_start (hd (xs @ [m])) < T \<and> x \<noteq> m) xs"
  shows "combine_segments (xs @ [m]) T =
           (if 10 \<le> seg_end m - seg_start (hd (xs @ [m])) then
              [\<lparr>cand_start = seg_start (hd (xs @ [m])), cand_end = seg_end m,
                cand_text = py_strip (group_text (xs @ [m])),
                cand_source = Some ''combined''\<rparr>]
            else [])"
proof (cases "xs = []")
  case True
  then show ?thesis
    by (simp add: combine_segments_def combine_step_cases closes_def group_start_def
        merge_init_def group_text_def)
next
  case False
  let ?segs = "xs @ [m]"
  let ?st = "\<lparr>combined = [], current_segments = xs,
            current_start = Some (seg_start (hd ?segs)), current_text = group_text xs\<rparr>"
  from assms have "list_all (\<lambda>x. seg_end x - seg_start (hd ?segs) < T \<and> x \<noteq> last ?segs) xs"
    by simp
  then have "foldl (combine_step T ?segs) merge_init xs = ?st"
    using False by (rule foldl_join_init)
  then have "combine_segments ?segs T = combined (combine_step T ?segs ?st m)"
    by (simp add: combine_segments_def)
  also have "closes T ?segs ?st m"
    by (simp add: closes_def)
  then have "combined (combine_step T ?segs ?st m) =
      (if 10 \<le> seg_end m - seg_start (hd ?segs) then
              [\<lparr>cand_start = seg_start (hd ?segs), cand_end = seg_end m,
                cand_text = py_strip (group_text ?segs),
                cand_source = Some ''combined''\<rparr>]
            else [])"
    by (simp add: combine_step_cases group_start_def group_text_def)
  finally show ?thesis .
qed

subsection \<open>Claims about the merger\<close>

text \<open>
  C3. For every sequence of segments, whatever its times, and every target duration, each
  candidate the merger emits has a duration (end minus start) of at least 10 seconds; and
  the durations of the emitted candidates are, in order, the durations of the groups that
  closed with at least 10 seconds, so that a group that closes with less than 10 seconds
  leaves no candidate.
\<close>

theorem merge_duration_floor:
  "(\<forall>c \<in> set (combine_segments segments target_duration).
       \<not> cand_end c - cand_start c < 10) \<and>
   map (\<lambda>c. cand_end c - cand_start c) (combine_segments segments target_duration) =
     map snd (filter (\<lambda>(closed, d). closed \<and> 10 \<le> d)
       (close_trace target_duration segments merge_init segments))"
proof -
  have "\<forall>c \<in> set (combine_segments segments target_duration).
       \<not> cand_end c - cand_start c < 10"
    using combine_segments_floor by (auto simp: not_less)
  then show ?thesis
    by (simp only: durations_combine_segments simp_thms)
qed

theorem merge_duration_floor_witness:
  "list_all (\<lambda>c. \<not> cand_end c - cand_start c < 10) (combine_segments restart 30) \<and>
   map (\<lambda>c. cand_end c - cand_start c) (combine_segments restart 30) = [35] \<and>
   close_trace 30 restart merge_init restart = [(False, 4), (True, 35), (True, 3)]"
proof -
  note floor = merge_duration_floor [of restart 30]
  from floor [THEN conjunct1]
  have "list_all (\<lambda>c. \<not> cand_end c - cand_start c < 10) (combine_segments restart 30)"
    by (simp only: list_all_iff)
  moreover from floor [THEN conjunct2]
  have "map (\<lambda>c. cand_end c - cand_start c) (combine_segments restart 30) = [35]"
    by (simp add: trace_restart)
  ultimately show ?thesis
    using trace_restart by (intro conjI) assumption+
qed

text \<open>
  C4, at an input where the claim fails. The two segments of \<open>twice\<close> are equal by value.
  The group closes at the first segment, where the duration 15 is below the target 30 and
  the segment is not the last one by position, and the merger emits two candidates; closing
  at the last position only gives the one candidate with both texts.
\<close>

theorem close_on_equal_segment:
  "close_trace 30 twice merge_init twice = [(True, 15), (True, 15)] \<and>
   combine_segments twice 30 =
     [\<lparr>cand_start = 0, cand_end = 15, cand_text = [104, 105],
       cand_source = Some ''combined''\<rparr>,
      \<lparr>cand_start = 0, cand_end = 15, cand_text = [104, 105],
       cand_source = Some ''combined''\<rparr>] \<and>
   merge_by_position 30 merge_init twice =
     [\<lparr>cand_start = 0, cand_end = 15, cand_text = [104, 105, 32, 104, 105],
       cand_source = Some ''combined''\<rparr>]"
  by (simp add: twice_def merger_eval)

subsection \<open>Evaluation of the scorers and the selector on concrete inputs\<close>

lemmas text_eval = analyze_text_engagement_def laughter_contribution_def laughter_count_def
  laughter_patterns_def py_count_def py_lower_def lower_char_def py_split_def questions_def
  exclamations_def ascii_def is_space_def Let_def

lemmas audio_eval = analyze_audio_engagement_def segment_audio_def py_slice_def slice_bound_def
  py_int_def np_mean_def Let_def

lemma analyze_engagement_eq:
  "analyze_engagement env segs y sr =
     Inr (take 10 (filter suitable (sort_by_score
       (map (score_candidate env y sr) (all_candidates segs)))))"
  by (cases segs)
    (simp_all add: analyze_engagement_def py_div_def all_candidates_def combine_segments_def
      merge_init_def sort_by_score_def Let_def)

lemma audio_empty: "analyze_audio_engagement env [] sr a b = 0"
  by (simp add: audio_eval)

lemma score_candidate_silent:
  "score_candidate env [] sr c =
     \<lparr>start_time = cand_start c, end_time = cand_end c, clip_text = py_strip (cand_text c),
      engagement_score = min (analyze_text_engagement env (py_strip (cand_text c)) * 0.4) 1,
      duration = cand_end c - cand_start c,
      source = (case cand_source c of None \<Rightarrow> ''unknown'' | Some s \<Rightarrow> s)\<rparr>"
  by (simp add: score_candidate_def calculate_engagement_score_def audio_empty Let_def)

lemma strip_words:
  "py_strip (ascii ''hi'') = ascii ''hi''"
  "py_strip (ascii ''a'') = ascii ''a''"
  "py_strip (ascii ''Wow!'') = ascii ''Wow!''"
  "py_strip (ascii ''Ha?!'') = ascii ''Ha?!''"
  "py_strip (ascii ''Wow! No? Ha?!'') = ascii ''Wow! No? Ha?!''"
  by (simp_all add: py_strip_def is_space_def ascii_def)

lemma text_words:
  "analyze_text_engagement quiet_env (ascii ''hi'') = 0"
  "analyze_text_engagement quiet_env (ascii ''a'') = 0"
  "analyze_text_engagement quiet_env (ascii ''Wow!'') = 3/20"
  "analyze_text_engagement quiet_env (ascii ''Ha?!'') = 7/20"
  "analyze_text_engagement quiet_env (ascii ''Wow! No? Ha?!'') = 1/2"
  by (simp_all add: text_eval quiet_env_def)

lemma pool_single:
  "all_candidates single =
     [\<lparr>cand_start = 0, cand_end = 12, cand_text = ascii ''hi'', cand_source = Some ''combined''\<rparr>,
      \<lparr>cand_start = 0, cand_end = 12, cand_text = ascii ''hi'', cand_source = None\<rparr>]"
  by (simp add: single_def all_candidates_def as_candidate_def merger_eval)

lemma pool_broken:
  "all_candidates broken =
     [\<lparr>cand_start = 0, cand_end = 20, cand_text = ascii ''a'', cand_source = None\<rparr>]"
  by (simp add: broken_def all_candidates_def as_candidate_def merger_eval)

lemma pool_unbroken:
  "all_candidates [spoken 0 20 ''a''] =
     [\<lparr>cand_start = 0, cand_end = 20, cand_text = ascii ''a'', cand_source = Some ''combined''\<rparr>,
      \<lparr>cand_start = 0, cand_end = 20, cand_text = ascii ''a'', cand_source = None\<rparr>]"
  by (simp add: all_candidates_def as_candidate_def merger_eval)

lemma pool_talk:
  "all_candidates talk =
     [\<lparr>cand_start = 0, cand_end = 45, cand_text = ascii ''Wow! No? Ha?!'', cand_source = Some ''combined''\<rparr>,
      \<lparr>cand_start = 0, cand_end = 12, cand_text = ascii ''Wow!'', cand_source = None\<rparr>,
      \<lparr>cand_start = 20, cand_end = 45, cand_text = ascii ''Ha?!'', cand_source = None\<rparr>]"
  by (simp add: talk_def all_candidates_def as_candidate_def merger_eval)

lemma result_single:
  "analyze_engagement quiet_env single [] 1 =
     Inr [\<lparr>start_time = 0, end_time = 12, clip_text = ascii ''hi'', engagement_score = 0,
           duration = 12, source = ''combined''\<rparr>,
          \<lparr>start_time = 0, end_time = 12, clip_text = ascii ''hi'', engagement_score = 0,
           duration = 12, source = ''unknown''\<rparr>]"
  by (simp add: analyze_engagement_eq pool_single score_candidate_silent strip_words text_words
      sort_by_score_def suitable_def)

lemma result_broken:
  "analyze_engagement quiet_env broken [] 1 =
     Inr [\<lparr>start_time = 0, end_time = 20, clip_text = ascii ''a'', engagement_score = 0,
           duration = 20, source = ''unknown''\<rparr>]"
  by (simp add: analyze_engagement_eq pool_broken score_candidate_silent strip_words text_words
      sort_by_score_def suitable_def)

lemma result_unbroken:
  "analyze_engagement quiet_env [spoken 0 20 ''a''] [] 1 =
     Inr [\<lparr>start_time = 0, end_time = 20, clip_text = ascii ''a'', engagement_score = 0,
           duration = 20, source = ''combined''\<rparr>,
          \<lparr>start_time = 0, end_time = 20, clip_text = ascii ''a'', engagement_score = 0,
           duration = 20, source = ''unknown''\<rparr>]"
  by (simp add: analyze_engagement_eq pool_unbroken score_candidate_silent strip_words text_words
      sort_by_score_def suitable_def)

lemma result_talk:
  "analyze_engagement quiet_env talk [] 1 =
     Inr [\<lparr>start_time = 0, end_time = 45, clip_text = ascii ''Wow! No? Ha?!'',
           engagement_score = 1/5, duration = 45, source = ''combined''\<rparr>,
          \<lparr>start_time = 20, end_time = 45, clip_text = ascii ''Ha?!'',
           engagement_score = 7/50, duration = 25, source = ''unknown''\<rparr>,
          \<lparr>start_time = 0, end_time = 12, clip_text = ascii ''Wow!'',
           engagement_score = 3/50, duration = 12, source = ''unknown''\<rparr>]"
  by (simp add: analyze_engagement_eq pool_talk score_candidate_silent strip_words text_words
      sort_by_score_def suitable_def)

subsection \<open>The selector\<close>

lemma prefix_filter_take: "prefix (filter P (take n xs)) (filter P xs)"
proof -
  have "filter P xs = filter P (take n xs) @ filter P (drop n xs)"
    by (metis append_take_drop_id filter_append)
  then show ?thesis by (simp add: prefix_def)
qed

lemma sort_by_score_ties:
  "filter (\<lambda>c. engagement_score c = k) (sort_by_score xs) =
   filter (\<lambda>c. engagement_score c = k) xs"
  using sort_key_stable [of "\<lambda>x. - engagement_score x" "- k" xs]
  by (simp add: sort_by_score_def)

lemma sort_by_score_sorted:
  "sorted_wrt (\<lambda>a b. engagement_score a \<ge> engagement_score b) (sort_by_score xs)"
  using sorted_sort_key [of "\<lambda>x. - engagement_score x" xs]
  by (simp add: sort_by_score_def sorted_map)

lemma set_sort_by_score: "set (sort_by_score xs) = set xs"
  by (simp add: sort_by_score_def)

lemma sorted_wrt_take_filter:
  "sorted_wrt R xs \<Longrightarrow> sorted_wrt R (take n (filter P xs))"
  by (simp add: sorted_wrt_filter sorted_wrt_take)

lemma result_suitable:
  assumes "analyze_engagement env segs y sr = Inr r" and "c \<in> set r"
  shows "suitable c" and "c \<in> set (map (score_candidate env y sr) (all_candidates segs))"
proof -
  from assms have "c \<in> set (take 10 (filter suitable (sort_by_score
       (map (score_candidate env y sr) (all_candidates segs)))))"
    by (simp add: analyze_engagement_eq)
  then have "c \<in> set (filter suitable (sort_by_score
       (map (score_candidate env y sr) (all_candidates segs))))"
    by (rule in_set_takeD)
  then show "suitable c" and "c \<in> set (map (score_candidate env y sr) (all_candidates segs))"
    by (simp_all add: set_sort_by_score)
qed

lemma map_constant:
  "list_all (\<lambda>x. f x = k) xs \<Longrightarrow> map f xs = replicate (length xs) k"
  by (induction xs) simp_all

lemma source_score_candidate:
  "source (score_candidate env y sr c) =
     (case cand_source c of None \<Rightarrow> ''unknown'' | Some s \<Rightarrow> s)"
  by (simp add: score_candidate_def Let_def)

lemma pool_sources:
  "map source (map (score_candidate env y sr) (all_candidates segs)) =
     replicate (length (combine_segments segs 30)) ''combined'' @
     replicate (length (filter (\<lambda>s. seg_end s - seg_start s \<ge> 10) segs)) ''unknown''"
proof -
  have "list_all (\<lambda>c. source (score_candidate env y sr c) = ''combined'')
          (combine_segments segs 30)"
    using combine_segments_source [of segs 30]
    by (simp add: list_all_iff source_score_candidate)
  then have merged: "map (\<lambda>c. source (score_candidate env y sr c)) (combine_segments segs 30) =
      replicate (length (combine_segments segs 30)) ''combined''"
    by (rule map_constant)
  have "list_all (\<lambda>s. source (score_candidate env y sr (as_candidate s)) = ''unknown'')
          (filter (\<lambda>s. seg_end s - seg_start s \<ge> 10) segs)"
    by (simp add: list_all_iff source_score_candidate as_candidate_def)
  then have long: "map (\<lambda>s. source (score_candidate env y sr (as_candidate s)))
        (filter (\<lambda>s. seg_end s - seg_start s \<ge> 10) segs) =
      replicate (length (filter (\<lambda>s. seg_end s - seg_start s \<ge> 10) segs)) ''unknown''"
    by (rule map_constant)
  show ?thesis
    by (simp add: all_candidates_def Let_def o_def merged long)
qed

subsection \<open>Claims about the selector\<close>

text \<open>
  C1. For every transcript, waveform and sample rate the selector returns a list (it raises
  no error), and of that list: every entry has a duration between 10 and 60 seconds
  inclusive; the entries are in non-increasing order of \<open>engagement_score\<close>; for every
  score, the entries with that score are the first ones, in pool order, of the suitable
  scored pool members with that score (ties stay in pool order); and there are at most 10
  entries.
\<close>

theorem selection_filtering:
  "\<exists>r. analyze_engagement env segs y sr = Inr r \<and>
       (\<forall>c \<in> set r. 10 \<le> duration c \<and> duration c \<le> 60) \<and>
       sorted_wrt (\<lambda>a b. engagement_score a \<ge> engagement_score b) r \<and>
       (\<forall>k. prefix (filter (\<lambda>c. engagement_score c = k) r)
              (filter (\<lambda>c. engagement_score c = k)
                 (filter suitable (map (score_candidate env y sr) (all_candidates segs))))) \<and>
       length r \<le> 10"
proof -
  let ?pool = "map (score_candidate env y sr) (all_candidates segs)"
  let ?r = "take 10 (filter suitable (sort_by_score ?pool))"
  have ret: "analyze_engagement env segs y sr = Inr ?r"
    by (rule analyze_engagement_eq)
  have bounds: "\<forall>c \<in> set ?r. 10 \<le> duration c \<and> duration c \<le> 60"
  proof
    fix c assume "c \<in> set ?r"
    with ret have "suitable c" by (rule result_suitable(1))
    then show "10 \<le> duration c \<and> duration c \<le> 60"
      by (simp add: suitable_def)
  qed
  have ordered: "sorted_wrt (\<lambda>a b. engagement_score a \<ge> engagement_score b) ?r"
    by (rule sorted_wrt_take_filter) (rule sort_by_score_sorted)
  have ties: "prefix (filter (\<lambda>c. engagement_score c = k) ?r)
       (filter (\<lambda>c. engagement_score c = k) (filter suitable ?pool))" for k
  proof -
    have "filter (\<lambda>c. engagement_score c = k) (filter suitable (sort_by_score ?pool)) =
          filter suitable (filter (\<lambda>c. engagement_score c = k) (sort_by_score ?pool))"
      by (simp add: conj_commute)
    also have "\<dots> = filter suitable (filter (\<lambda>c. engagement_score c = k) ?pool)"
      by (simp only: sort_by_score_ties)
    also have "\<dots> = filter (\<lambda>c. engagement_score c = k) (filter suitable ?pool)"
      by (simp add: conj_commute)
    finally show ?thesis
      using prefix_filter_take
        [of "\<lambda>c. engagement_score c = k" 10 "filter suitable (sort_by_score ?pool)"]
      by simp
  qed
  have "length ?r \<le> 10" by simp
  with ret bounds ordered ties show ?thesis by blast
qed

theorem selection_filtering_witness:
  "\<exists>r. analyze_engagement quiet_env talk [] 1 = Inr r \<and>
       map duration r = [45, 25, 12] \<and>
       map engagement_score r = [1/5, 7/50, 3/50] \<and>
       list_all (\<lambda>c. 10 \<le> duration c \<and> duration c \<le> 60) r \<and>
       sorted_wrt (\<lambda>a b. engagement_score a \<ge> engagement_score b) r \<and> length r \<le> 10"
proof -
  from selection_filtering [of quiet_env talk "[]" 1]
  obtain r where ret: "analyze_engagement quiet_env talk [] 1 = Inr r"
    and bounds: "\<forall>c \<in> set r. 10 \<le> duration c \<and> duration c \<le> 60"
    and ordered: "sorted_wrt (\<lambda>a b. engagement_score a \<ge> engagement_score b) r"
    and short: "length r \<le> 10"
    by blast
  from ret have "map duration r = [45, 25, 12]" and "map engagement_score r = [1/5, 7/50, 3/50]"
    by (auto simp: result_talk)
  moreover from bounds have "list_all (\<lambda>c. 10 \<le> duration c \<and> duration c \<le> 60) r"
    by (simp only: list_all_iff)
  ultimately show ?thesis
    using ret ordered short by (intro exI [of _ r] conjI) assumption+
qed

text \<open>
  C5. For every waveform and sample rate, the selector called with no transcript segments
  returns the empty list, not an error.
\<close>

theorem empty_input: "analyze_engagement env [] y sr = Inr []"
  by (simp add: analyze_engagement_def)

text \<open>
  C9, as stated, fails: the segment from 20 to 8 is malformed, and the selector's result
  with it differs from the result without it. With it the merged group from 0 closes at 8,
  below 10 seconds, and is dropped.
\<close>

theorem malformed_segment_not_skipped:
  "seg_end (spoken 20 8 ''b'') \<le> seg_start (spoken 20 8 ''b'') \<and>
   analyze_engagement quiet_env [spoken 0 20 ''a'', spoken 20 8 ''b''] [] 1 \<noteq>
   analyze_engagement quiet_env [spoken 0 20 ''a''] [] 1"
proof -
  have "seg_end (spoken 20 8 ''b'') \<le> seg_start (spoken 20 8 ''b'')"
    by (simp add: spoken_def)
  moreover have "analyze_engagement quiet_env broken [] 1 \<noteq>
      analyze_engagement quiet_env [spoken 0 20 ''a''] [] 1"
    by (simp add: result_broken result_unbroken)
  ultimately show ?thesis
    unfolding broken_def by (rule conjI)
qed

text \<open>
  C9, amended. For every input, with malformed segments or without, the selector returns a
  list and raises no error, and no returned entry and no merged candidate has a negative
  duration. A malformed segment is not skipped but handled as any other segment. When it
  closes the running group, its end is the group's end: the group is emitted with that end
  if it then lasts at least 10 seconds and dropped otherwise. When it does not close the
  group, it joins the group, its text appended. In particular, when the whole input forms
  one group (no segment before the last reaches the target or equals the last segment), the
  merger's result is the one candidate from the first segment's start to the last
  segment's end with the texts of all segments, malformed ones included, if that lasts at
  least 10 seconds, and nothing otherwise.
\<close>

theorem malformed_segment_handling:
  "(\<exists>r. analyze_engagement env segs y sr = Inr r \<and> (\<forall>c \<in> set r. \<not> duration c < 0)) \<and>
   (\<forall>c \<in> set (combine_segments segs T). \<not> cand_end c - cand_start c < 0) \<and>
   (\<forall>st m. seg_end m \<le> seg_start m \<longrightarrow>
      combine_step T segs st m =
        (if closes T segs st m then
           \<lparr>combined =
              (if 10 \<le> seg_end m - group_start st m then
                 combined st @
                   [\<lparr>cand_start = group_start st m, cand_end = seg_end m,
                     cand_text = py_strip (current_text st @ [32] @ py_strip (seg_text m)),
                     cand_source = Some ''combined''\<rparr>]
               else combined st),
            current_segments = [], current_start = None, current_text = []\<rparr>
         else
           \<lparr>combined = combined st, current_segments = current_segments st @ [m],
            current_start = Some (group_start st m),
            current_text = current_text st @ [32] @ py_strip (seg_text m)\<rparr>)) \<and>
   (\<forall>xs m. segs = xs @ [m] \<and>
        list_all (\<lambda>x. seg_end x - seg_start (hd segs) < T \<and> x \<noteq> m) xs \<longrightarrow>
      combine_segments segs T =
        (if 10 \<le> seg_end m - seg_start (hd segs) then
           [\<lparr>cand_start = seg_start (hd segs), cand_end = seg_end m,
             cand_text = py_strip (group_text segs), cand_source = Some ''combined''\<rparr>]
         else []))"
proof (intro conjI allI impI)
  obtain r where ret: "analyze_engagement env segs y sr = Inr r"
    by (simp add: analyze_engagement_eq)
  have "\<forall>c \<in> set r. \<not> duration c < 0"
    using result_suitable(1) [OF ret] by (fastforce simp: suitable_def)
  with ret show "\<exists>r. analyze_engagement env segs y sr = Inr r \<and> (\<forall>c \<in> set r. \<not> duration c < 0)"
    by blast
  show "\<forall>c \<in> set (combine_segments segs T). \<not> cand_end c - cand_start c < 0"
    using combine_segments_floor [of _ segs T] by fastforce
next
  fix st m
  show "combine_step T segs st m =
        (if closes T segs st m then
           \<lparr>combined =
              (if 10 \<le> seg_end m - group_start st m then
                 combined st @
                   [\<lparr>cand_start = group_start st m, cand_end = seg_end m,
                     cand_text = py_strip (current_text st @ [32] @ py_strip (seg_text m)),
                     cand_source = Some ''combined''\<rparr>]
               else combined st),
            current_segments = [], current_start = None, current_text = []\<rparr>
         else
           \<lparr>combined = combined st, current_segments = current_segments st @ [m],
            current_start = Some (group_start st m),
            current_text = current_text st @ [32] @ py_strip (seg_text m)\<rparr>)"
    by (rule combine_step_cases)
next
  fix xs m
  assume group: "segs = xs @ [m] \<and>
        list_all (\<lambda>x. seg_end x - seg_start (hd segs) < T \<and> x \<noteq> m) xs"
  then have segs: "segs = xs @ [m]"
    by (rule conjunct1)
  from group have "list_all (\<lambda>x. seg_end x - seg_start (hd segs) < T \<and> x \<noteq> m) xs"
    by (rule conjunct2)
  then have "list_all (\<lambda>x. seg_end x - seg_start (hd (xs @ [m])) < T \<and> x \<noteq> m) xs"
    unfolding segs .
  then show "combine_segments segs T =
        (if 10 \<le> seg_end m - seg_start (hd segs) then
           [\<lparr>cand_start = seg_start (hd segs), cand_end = seg_end m,
             cand_text = py_strip (group_text segs), cand_source = Some ''combined''\<rparr>]
         else [])"
    unfolding segs by (rule combine_single_group)
qed

lemma state_backward:
  "combine_step 30 backward merge_init (spoken 0 20 ''a'') =
     \<lparr>combined = [], current_segments = [spoken 0 20 ''a''], current_start = Some 0,
      current_text = ascii '' a''\<rparr>"
  by (simp add: backward_def merger_eval)

lemma state_stumble:
  "combine_step 30 stumble merge_init (spoken 0 12 ''a'') =
     \<lparr>combined = [], current_segments = [spoken 0 12 ''a''], current_start = Some 0,
      current_text = ascii '' a''\<rparr>"
  by (simp add: stumble_def merger_eval)

lemma group_texts:
  "py_strip (group_text stumble) = ascii ''a um b''"
  "py_strip (group_text backward) = ascii ''a b''"
  by (simp_all add: group_text_def stumble_def backward_def spoken_def ascii_def py_strip_def
      is_space_def)

lemma combine_broken:
  "combine_segments broken 15 =
     [\<lparr>cand_start = 0, cand_end = 20, cand_text = ascii ''a'', cand_source = Some ''combined''\<rparr>]"
  by (simp add: broken_def merger_eval)

theorem malformed_segment_handling_witness:
  "(\<exists>r. analyze_engagement quiet_env broken [] 1 = Inr r \<and> map duration r = [20] \<and>
        list_all (\<lambda>c. \<not> duration c < 0) r) \<and>
   map (\<lambda>c. cand_end c - cand_start c) (combine_segments broken 15) = [20] \<and>
   list_all (\<lambda>c. \<not> cand_end c - cand_start c < 0) (combine_segments broken 15) \<and>
   spoken 20 15 ''b'' \<in> set backward \<and>
   seg_end (spoken 20 15 ''b'') \<le> seg_start (spoken 20 15 ''b'') \<and>
   combine_step 30 backward (combine_step 30 backward merge_init (spoken 0 20 ''a''))
       (spoken 20 15 ''b'') =
     \<lparr>combined = [\<lparr>cand_start = 0, cand_end = 15, cand_text = ascii ''a b'',
                    cand_source = Some ''combined''\<rparr>],
      current_segments = [], current_start = None, current_text = []\<rparr> \<and>
   combine_segments backward 30 =
     [\<lparr>cand_start = 0, cand_end = 15, cand_text = ascii ''a b'',
       cand_source = Some ''combined''\<rparr>] \<and>
   spoken 12 12 ''um'' \<in> set stumble \<and>
   seg_end (spoken 12 12 ''um'') \<le> seg_start (spoken 12 12 ''um'') \<and>
   combine_step 30 stumble (combine_step 30 stumble merge_init (spoken 0 12 ''a''))
       (spoken 12 12 ''um'') =
     \<lparr>combined = [],
      current_segments = [spoken 0 12 ''a'', spoken 12 12 ''um''], current_start = Some 0,
      current_text = ascii '' a um''\<rparr> \<and>
   combine_segments stumble 30 =
     [\<lparr>cand_start = 0, cand_end = 25, cand_text = ascii ''a um b'',
       cand_source = Some ''combined''\<rparr>]"
proof -
  note on_broken = malformed_segment_handling [of quiet_env broken "[]" 1 15]
  note on_backward = malformed_segment_handling [of quiet_env backward "[]" 1 30]
  note on_stumble = malformed_segment_handling [of quiet_env stumble "[]" 1 30]
  from on_broken [THEN conjunct1]
  obtain r where ret: "analyze_engagement quiet_env broken [] 1 = Inr r"
    and nonneg: "\<forall>c \<in> set r. \<not> duration c < 0"
    by blast
  from ret have durations: "map duration r = [20]"
    by (auto simp: result_broken)
  from nonneg have entries: "list_all (\<lambda>c. \<not> duration c < 0) r"
    by (simp only: list_all_iff)
  have selector: "\<exists>r. analyze_engagement quiet_env broken [] 1 = Inr r \<and> map duration r = [20] \<and>
        list_all (\<lambda>c. \<not> duration c < 0) r"
    using ret durations entries by (intro exI [of _ r] conjI) assumption+
  have merged: "map (\<lambda>c. cand_end c - cand_start c) (combine_segments broken 15) = [20]"
    by (simp add: combine_broken)
  from on_broken [THEN conjunct2, THEN conjunct1]
  have floor: "list_all (\<lambda>c. \<not> cand_end c - cand_start c < 0) (combine_segments broken 15)"
    by (simp only: list_all_iff)
  have in_backward: "spoken 20 15 ''b'' \<in> set backward"
    by (simp add: backward_def)
  have bad_b: "seg_end (spoken 20 15 ''b'') \<le> seg_start (spoken 20 15 ''b'')"
    by (simp add: spoken_def)
  from on_backward [THEN conjunct2, THEN conjunct2, THEN conjunct1, rule_format, OF bad_b,
      of "combine_step 30 backward merge_init (spoken 0 20 ''a'')"]
  have closing: "combine_step 30 backward (combine_step 30 backward merge_init (spoken 0 20 ''a''))
       (spoken 20 15 ''b'') =
     \<lparr>combined = [\<lparr>cand_start = 0, cand_end = 15, cand_text = ascii ''a b'',
                    cand_source = Some ''combined''\<rparr>],
      current_segments = [], current_start = None, current_text = []\<rparr>"
    unfolding state_backward
    by (simp add: closes_def current_duration_def group_start_def backward_def spoken_def
        ascii_def py_strip_def is_space_def)
  have "backward = [spoken 0 20 ''a''] @ [spoken 20 15 ''b''] \<and>
      list_all (\<lambda>x. seg_end x - seg_start (hd backward) < 30 \<and> x \<noteq> spoken 20 15 ''b'')
        [spoken 0 20 ''a'']"
    by (simp add: backward_def spoken_def)
  from on_backward [THEN conjunct2, THEN conjunct2, THEN conjunct2, rule_format, OF this]
  have whole_backward: "combine_segments backward 30 =
     [\<lparr>cand_start = 0, cand_end = 15, cand_text = ascii ''a b'',
       cand_source = Some ''combined''\<rparr>]"
    by (simp add: group_texts) (simp add: backward_def spoken_def)
  have in_stumble: "spoken 12 12 ''um'' \<in> set stumble"
    by (simp add: stumble_def)
  have bad_um: "seg_end (spoken 12 12 ''um'') \<le> seg_start (spoken 12 12 ''um'')"
    by (simp add: spoken_def)
  from on_stumble [THEN conjunct2, THEN conjunct2, THEN conjunct1, rule_format, OF bad_um,
      of "combine_step 30 stumble merge_init (spoken 0 12 ''a'')"]
  have joining: "combine_step 30 stumble (combine_step 30 stumble merge_init (spoken 0 12 ''a''))
       (spoken 12 12 ''um'') =
     \<lparr>combined = [],
      current_segments = [spoken 0 12 ''a'', spoken 12 12 ''um''], current_start = Some 0,
      current_text = ascii '' a um''\<rparr>"
    unfolding state_stumble
    by (simp add: closes_def current_duration_def group_start_def stumble_def spoken_def
        ascii_def py_strip_def is_space_def)
  have "stumble = [spoken 0 12 ''a'', spoken 12 12 ''um''] @ [spoken 12 25 ''b''] \<and>
      list_all (\<lambda>x. seg_end x - seg_start (hd stumble) < 30 \<and> x \<noteq> spoken 12 25 ''b'')
        [spoken 0 12 ''a'', spoken 12 12 ''um'']"
    by (simp add: stumble_def spoken_def)
  from on_stumble [THEN conjunct2, THEN conjunct2, THEN conjunct2, rule_format, OF this]
  have whole_stumble: "combine_segments stumble 30 =
     [\<lparr>cand_start = 0, cand_end = 25, cand_text = ascii ''a um b'',
       cand_source = Some ''combined''\<rparr>]"
    by (simp add: group_texts) (simp add: stumble_def spoken_def)
  from selector merged floor in_backward bad_b closing whole_backward in_stumble bad_um joining
    whole_stumble
  show ?thesis
    by (intro conjI) assumption+
qed

text \<open>
  C10, as stated, fails: for a single transcript segment of 12 seconds the selector returns
  the merged candidate and the segment itself, and the entry of the segment has the source
  \<open>unknown\<close>, which is neither \<open>atomic\<close> nor \<open>combined\<close>.
\<close>

theorem source_is_unknown_for_long_segment:
  "analyze_engagement quiet_env single [] 1 =
     Inr [\<lparr>start_time = 0, end_time = 12, clip_text = ascii ''hi'', engagement_score = 0,
           duration = 12, source = ''combined''\<rparr>,
          \<lparr>start_time = 0, end_time = 12, clip_text = ascii ''hi'', engagement_score = 0,
           duration = 12, source = ''unknown''\<rparr>] \<and>
   ''unknown'' \<noteq> ''atomic'' \<and> ''unknown'' \<noteq> ''combined''"
  by (simp add: result_single)

text \<open>
  C10, amended. The scored pool consists of the merger's candidates, each with the source
  \<open>combined\<close>, followed by the transcript segments of at least 10 seconds, each with the
  source \<open>unknown\<close>; and every entry of the returned list has one of these two sources.
\<close>

theorem source_field_values:
  "map source (map (score_candidate env y sr) (all_candidates segs)) =
     replicate (length (combine_segments segs 30)) ''combined'' @
     replicate (length (filter (\<lambda>s. seg_end s - seg_start s \<ge> 10) segs)) ''unknown'' \<and>
   (\<exists>r. analyze_engagement env segs y sr = Inr r \<and>
        (\<forall>c \<in> set r. source c = ''combined'' \<or> source c = ''unknown''))"
proof -
  let ?pool = "map (score_candidate env y sr) (all_candidates segs)"
  obtain r where ret: "analyze_engagement env segs y sr = Inr r"
    by (simp add: analyze_engagement_eq)
  have "source c = ''combined'' \<or> source c = ''unknown''" if "c \<in> set r" for c
  proof -
    from ret that have "c \<in> set ?pool" by (rule result_suitable(2))
    then have "source c \<in> set (map source ?pool)" by force
    then show ?thesis
      unfolding pool_sources by auto
  qed
  with ret show ?thesis
    by (simp only: pool_sources) blast
qed

theorem source_field_values_witness:
  "map source (map (score_candidate quiet_env [] 1) (all_candidates talk)) =
     [''combined'', ''unknown'', ''unknown''] \<and>
   (\<exists>r. analyze_engagement quiet_env talk [] 1 = Inr r \<and>
        map source r = [''combined'', ''unknown'', ''unknown''] \<and>
        list_all (\<lambda>c. source c = ''combined'' \<or> source c = ''unknown'') r)"
proof -
  from source_field_values [of quiet_env "[]" 1 talk]
  obtain r where ret: "analyze_engagement quiet_env talk [] 1 = Inr r"
    and known: "\<forall>c \<in> set r. source c = ''combined'' \<or> source c = ''unknown''"
    by blast
  from ret have "map source r = [''combined'', ''unknown'', ''unknown'']"
    by (auto simp: result_talk)
  moreover have "map source (map (score_candidate quiet_env [] 1) (all_candidates talk)) =
     [''combined'', ''unknown'', ''unknown'']"
    by (simp add: pool_talk score_candidate_silent)
  moreover from known
  have "list_all (\<lambda>c. source c = ''combined'' \<or> source c = ''unknown'') r"
    by (simp only: list_all_iff)
  ultimately show ?thesis
    using ret by (intro exI [of _ r] conjI) assumption+
qed

subsection \<open>The scorers\<close>

lemma np_mean_nonneg:
  assumes "\<forall>x \<in> set xs. 0 \<le> x"
  shows "0 \<le> np_mean xs"
proof -
  have "0 \<le> sum_list xs"
    using assms by (simp add: sum_list_nonneg)
  then show ?thesis
    by (simp add: np_mean_def)
qed

lemma rms_nonneg: "0 \<le> sqrt (np_mean (map (\<lambda>x. x\<^sup>2) xs))"
proof -
  have "0 \<le> np_mean (map (\<lambda>x. x\<^sup>2) xs)"
    by (rule np_mean_nonneg) auto
  then show ?thesis by simp
qed

lemma audio_score_eq:
  "analyze_audio_engagement env audio sr s e =
     (if segment_audio audio sr s e = [] then 0
      else min (min (sqrt (np_mean (map (\<lambda>x. x\<^sup>2) (segment_audio audio sr s e))) * 10) 0.4 +
                min (np_mean (spectral_centroid env (segment_audio audio sr s e) sr) / 5000) 0.3 +
                min (np_mean (zero_crossing_rate env (segment_audio audio sr s e)) * 2) 0.3) 1)"
  by (simp add: analyze_audio_engagement_def Let_def)

lemma audio_score_le_1: "analyze_audio_engagement env audio sr s e \<le> 1"
proof (cases "segment_audio audio sr s e = []")
  case True
  then show ?thesis by (simp add: audio_score_eq)
next
  case False
  then show ?thesis
    by (simp only: audio_score_eq if_False min.cobounded2)
qed

lemma audio_score_nonneg:
  assumes "\<forall>x \<in> set (spectral_centroid env (segment_audio audio sr s e) sr). 0 \<le> x"
      and "\<forall>x \<in> set (zero_crossing_rate env (segment_audio audio sr s e)). 0 \<le> x"
  shows "0 \<le> analyze_audio_engagement env audio sr s e"
proof -
  let ?seg = "segment_audio audio sr s e"
  have loud: "0 \<le> min (sqrt (np_mean (map (\<lambda>x. x\<^sup>2) ?seg)) * 10) 0.4"
    using rms_nonneg [of ?seg] by simp
  have bright: "0 \<le> min (np_mean (spectral_centroid env ?seg sr) / 5000) 0.3"
    using np_mean_nonneg [OF assms(1)] by simp
  have active: "0 \<le> min (np_mean (zero_crossing_rate env ?seg) * 2) 0.3"
    using np_mean_nonneg [OF assms(2)] by simp
  from loud bright active show ?thesis
    by (simp add: audio_score_eq)
qed

lemma drop_take_nth: "drop a (take b xs) = map ((!) xs) [a..<min b (length xs)]"
proof (rule nth_equalityI)
  show "length (drop a (take b xs)) = length (map ((!) xs) [a..<min b (length xs)])"
    by (simp add: min.commute)
next
  fix i
  assume "i < length (drop a (take b xs))"
  then have "a + i < b" and "a + i < length xs"
    by simp_all
  then have "i < min b (length xs) - a"
    by simp
  then have "map ((!) xs) [a..<min b (length xs)] ! i = xs ! (a + i)"
    by (simp only: nth_map_upt)
  moreover have "drop a (take b xs) ! i = xs ! (a + i)"
    using \<open>a + i < b\<close> \<open>a + i < length xs\<close> by simp
  ultimately show "drop a (take b xs) ! i = map ((!) xs) [a..<min b (length xs)] ! i"
    by simp
qed

lemma py_int_nonneg: "0 \<le> x \<Longrightarrow> py_int x = \<lfloor>x\<rfloor>"
  by (simp add: py_int_def)

lemma segment_audio_indices:
  assumes "0 \<le> s * real_of_int sr" and "0 \<le> e * real_of_int sr"
  shows "segment_audio audio sr s e =
           map ((!) audio) [nat \<lfloor>s * real_of_int sr\<rfloor>..<min (nat \<lfloor>e * real_of_int sr\<rfloor>) (length audio)]"
proof -
  have "slice_bound (length audio) \<lfloor>s * real_of_int sr\<rfloor> =
          min (nat \<lfloor>s * real_of_int sr\<rfloor>) (length audio)"
    using assms(1) by (simp add: slice_bound_def)
  moreover have "slice_bound (length audio) \<lfloor>e * real_of_int sr\<rfloor> =
          min (nat \<lfloor>e * real_of_int sr\<rfloor>) (length audio)"
    using assms(2) by (simp add: slice_bound_def)
  ultimately have "segment_audio audio sr s e =
      drop (min (nat \<lfloor>s * real_of_int sr\<rfloor>) (length audio))
        (take (min (nat \<lfloor>e * real_of_int sr\<rfloor>) (length audio)) audio)"
    using assms by (simp add: segment_audio_def py_slice_def py_int_nonneg Let_def)
  also have "\<dots> = drop (nat \<lfloor>s * real_of_int sr\<rfloor>) (take (nat \<lfloor>e * real_of_int sr\<rfloor>) audio)"
    by (simp add: min_def)
  finally show ?thesis
    by (simp only: drop_take_nth)
qed

subsection \<open>Claims about the audio scorer\<close>

text \<open>
  C7. The audio scorer scores the slice of the waveform from \<open>int(start * sample_rate)\<close> to
  \<open>int(end * sample_rate)\<close>. When both products are non-negative, \<open>int\<close> is the floor
  and the slice consists of the samples at the indices from the first bound up to, and
  excluding, the second, as far as the waveform reaches. When the slice is empty the score
  is exactly 0. Otherwise, when the frames the spectral-centroid and zero-crossing-rate
  collaborators return for the slice are non-negative, the score lies between 0 and 1.
\<close>

theorem audio_score_bounds:
  assumes "\<forall>x \<in> set (spectral_centroid env (segment_audio audio sr s e) sr). 0 \<le> x"
      and "\<forall>x \<in> set (zero_crossing_rate env (segment_audio audio sr s e)). 0 \<le> x"
  shows "segment_audio audio sr s e =
           py_slice audio (py_int (s * real_of_int sr)) (py_int (e * real_of_int sr)) \<and>
         (0 \<le> s * real_of_int sr \<and> 0 \<le> e * real_of_int sr \<longrightarrow>
            segment_audio audio sr s e =
              map ((!) audio)
                [nat \<lfloor>s * real_of_int sr\<rfloor>..<min (nat \<lfloor>e * real_of_int sr\<rfloor>) (length audio)]) \<and>
         (segment_audio audio sr s e = [] \<longrightarrow> analyze_audio_engagement env audio sr s e = 0) \<and>
         (segment_audio audio sr s e \<noteq> [] \<longrightarrow>
            0 \<le> analyze_audio_engagement env audio sr s e \<and>
            analyze_audio_engagement env audio sr s e \<le> 1)"
proof (intro conjI impI)
  show "segment_audio audio sr s e =
           py_slice audio (py_int (s * real_of_int sr)) (py_int (e * real_of_int sr))"
    by (simp add: segment_audio_def Let_def)
  show "segment_audio audio sr s e =
      map ((!) audio) [nat \<lfloor>s * real_of_int sr\<rfloor>..<min (nat \<lfloor>e * real_of_int sr\<rfloor>) (length audio)]"
    if "0 \<le> s * real_of_int sr \<and> 0 \<le> e * real_of_int sr"
    using that by (simp only: segment_audio_indices)
  show "analyze_audio_engagement env audio sr s e = 0" if "segment_audio audio sr s e = []"
    using that by (simp add: audio_score_eq)
  show "0 \<le> analyze_audio_engagement env audio sr s e"
    using assms by (rule audio_score_nonneg)
  show "analyze_audio_engagement env audio sr s e \<le> 1"
    by (rule audio_score_le_1)
qed

lemma segment_tone: "segment_audio tone 2 (3/5) (19/10) = [- 1/50, 1/50]"
  by (simp add: segment_audio_def py_slice_def slice_bound_def py_int_def tone_def Let_def)

lemma sqrt_2500: "sqrt (1 / 2500) = 1 / 50"
  by (rule real_sqrt_unique) (simp_all add: power2_eq_square)

lemma audio_tone: "analyze_audio_engagement loud_env tone 2 (3/5) (19/10) = 13/20"
  by (simp add: audio_score_eq segment_tone np_mean_def loud_env_def power2_eq_square sqrt_2500)

lemma segment_tone_late: "segment_audio tone 2 3 4 = []"
  by (simp add: segment_audio_def py_slice_def slice_bound_def py_int_def tone_def Let_def)

theorem audio_score_bounds_witness:
  "list_all (\<lambda>x. 0 \<le> x) (spectral_centroid loud_env (segment_audio tone 2 (3/5) (19/10)) 2) \<and>
   list_all (\<lambda>x. 0 \<le> x) (zero_crossing_rate loud_env (segment_audio tone 2 (3/5) (19/10))) \<and>
   segment_audio tone 2 (3/5) (19/10) = map ((!) tone) [1..<3] \<and>
   segment_audio tone 2 (3/5) (19/10) = [- 1/50, 1/50] \<and>
   analyze_audio_engagement loud_env tone 2 (3/5) (19/10) = 13/20 \<and>
   0 \<le> analyze_audio_engagement loud_env tone 2 (3/5) (19/10) \<and>
   analyze_audio_engagement loud_env tone 2 (3/5) (19/10) \<le> 1 \<and>
   segment_audio tone 2 3 4 = [] \<and>
   analyze_audio_engagement loud_env tone 2 3 4 = 0"
proof -
  have c: "\<forall>x \<in> set (spectral_centroid loud_env (segment_audio tone 2 t u) 2). 0 \<le> x" for t u
    by (simp add: loud_env_def)
  have z: "\<forall>x \<in> set (zero_crossing_rate loud_env (segment_audio tone 2 t u)). 0 \<le> x" for t u
    by (simp add: loud_env_def)
  note inside = audio_score_bounds [OF c z, of "3/5" "19/10"]
  note outside = audio_score_bounds [OF c z, of 3 4]
  have nonempty: "segment_audio tone 2 (3/5) (19/10) \<noteq> []"
    by (simp add: segment_tone)
  have "segment_audio tone 2 (3/5) (19/10) =
      map ((!) tone) [nat \<lfloor>3/5 * real_of_int 2\<rfloor>..<min (nat \<lfloor>19/10 * real_of_int 2\<rfloor>) (length tone)]"
    by (rule inside [THEN conjunct2, THEN conjunct1, rule_format]) simp
  moreover have "nat \<lfloor>3/5 * real_of_int 2\<rfloor> = 1" "min (nat \<lfloor>19/10 * real_of_int 2\<rfloor>) (length tone) = 3"
    by (simp_all add: tone_def)
  ultimately have idx: "segment_audio tone 2 (3/5) (19/10) = map ((!) tone) [1..<3]"
    by simp
  from inside [THEN conjunct2, THEN conjunct2, THEN conjunct2, rule_format, OF nonempty]
  have bounds: "0 \<le> analyze_audio_engagement loud_env tone 2 (3/5) (19/10)"
      "analyze_audio_engagement loud_env tone 2 (3/5) (19/10) \<le> 1"
    by simp_all
  from outside [THEN conjunct2, THEN conjunct2, THEN conjunct1, rule_format, OF segment_tone_late]
  have silent: "analyze_audio_engagement loud_env tone 2 3 4 = 0" .
  have "list_all (\<lambda>x. 0 \<le> x) (spectral_centroid loud_env (segment_audio tone 2 (3/5) (19/10)) 2)"
       "list_all (\<lambda>x. 0 \<le> x) (zero_crossing_rate loud_env (segment_audio tone 2 (3/5) (19/10)))"
    using c z by (simp_all only: list_all_iff)
  with idx bounds silent segment_tone audio_tone segment_tone_late show ?thesis
    by (intro conjI) assumption+
qed

subsection \<open>The text scorer\<close>

lemma laughter_contribution_bounds:
  "0 \<le> laughter_contribution t" "laughter_contribution t \<le> 1/5"
  by (simp_all add: laughter_contribution_def)

lemma text_score_eq:
  "analyze_text_engagement env t =
     (if t = [] then 0
      else min (\<bar>sentiment env t\<bar> * 0.3 + min (real (questions t) * 0.2) 0.3 +
                min (real (exclamations t) * 0.15) 0.2 + laughter_contribution t +
                (if 5 \<le> length (py_split t) \<and> length (py_split t) \<le> 50 then 0.1 else 0)) 1)"
  by (simp add: analyze_text_engagement_def Let_def)

lemma text_score_le_1: "analyze_text_engagement env t \<le> 1"
proof (cases "t = []")
  case True
  then show ?thesis by (simp add: text_score_eq)
next
  case False
  then show ?thesis
    by (simp only: text_score_eq if_False min.cobounded2)
qed

lemma text_score_nonneg: "0 \<le> analyze_text_engagement env t"
proof (cases "t = []")
  case True
  then show ?thesis by (simp add: text_score_eq)
next
  case False
  have "0 \<le> \<bar>sentiment env t\<bar> * 0.3"
    by simp
  moreover have "0 \<le> min (real (questions t) * 0.2) 0.3"
    by simp
  moreover have "0 \<le> min (real (exclamations t) * 0.15) 0.2"
    by simp
  moreover have "0 \<le> laughter_contribution t"
    by (rule laughter_contribution_bounds)
  moreover have "(0::real) \<le> (if 5 \<le> length (py_split t) \<and> length (py_split t) \<le> 50 then 0.1 else 0)"
    by simp
  ultimately have "0 \<le> \<bar>sentiment env t\<bar> * 0.3 + min (real (questions t) * 0.2) 0.3 +
                min (real (exclamations t) * 0.15) 0.2 + laughter_contribution t +
                (if 5 \<le> length (py_split t) \<and> length (py_split t) \<le> 50 then 0.1 else 0)"
    by linarith
  with False show ?thesis
    by (simp only: text_score_eq if_False min.bounded_iff) simp
qed

subsection \<open>Whitespace-only text\<close>

lemma count_scan_absent:
  assumes "p \<noteq> []" and "hd p \<notin> set t"
  shows "count_scan k t p = 0"
  using assms(2)
proof (induction t arbitrary: k)
  case Nil
  show ?case by simp
next
  case (Cons x xs)
  from Cons.prems assms(1) have "\<not> prefix p (x # xs)"
    by (cases p) auto
  with Cons show ?case
    by (cases k) simp_all
qed

lemma lower_char_space: "is_space c \<Longrightarrow> lower_char c = c"
  by (auto simp: is_space_def lower_char_def)

lemma py_lower_blank: "list_all is_space t \<Longrightarrow> py_lower t = t"
  by (induction t) (simp_all add: py_lower_def lower_char_space)

lemma laughter_heads:
  "p \<in> set laughter_patterns \<Longrightarrow> p \<noteq> [] \<and> \<not> is_space (hd p)"
  by (auto simp: laughter_patterns_def ascii_def is_space_def)

lemma laughter_count_blank:
  assumes "list_all is_space t"
  shows "laughter_count t = 0"
proof -
  have "py_count t p = 0" if "p \<in> set laughter_patterns" for p
  proof -
    from that have p: "p \<noteq> []" "\<not> is_space (hd p)"
      using laughter_heads by blast+
    with assms have "hd p \<notin> set t"
      by (auto simp: list_all_iff)
    with p(1) show ?thesis
      by (simp add: py_count_def count_scan_absent)
  qed
  then have "map (py_count t) laughter_patterns = map (\<lambda>p. 0) laughter_patterns"
    by simp
  then show ?thesis
    using assms by (simp add: laughter_count_def py_lower_blank)
qed

lemma split_scan_blank: "list_all is_space t \<Longrightarrow> split_scan [] t = []"
  by (induction t) simp_all

lemma marks_blank:
  assumes "list_all is_space t"
  shows "questions t = 0" and "exclamations t = 0"
proof -
  have "\<not> is_space 63" and "\<not> is_space 33"
    by (simp_all add: is_space_def)
  with assms have "63 \<notin> set t" and "33 \<notin> set t"
    by (auto simp: list_all_iff)
  then show "questions t = 0" and "exclamations t = 0"
    by (auto simp: questions_def exclamations_def filter_empty_conv)
qed

lemma text_score_blank:
  assumes "t \<noteq> []" and "list_all is_space t"
  shows "analyze_text_engagement env t = min (\<bar>sentiment env t\<bar> * 0.3) 1"
  using assms(1)
  by (simp add: text_score_eq marks_blank [OF assms(2)] laughter_contribution_def
      laughter_count_blank [OF assms(2)] py_split_def split_scan_blank [OF assms(2)])

subsection \<open>Claims about the text scorer\<close>

text \<open>
  C6. For every text and every sentiment collaborator, whatever polarity it returns, the
  text score lies between 0 and 1, and for the empty text it is exactly 0. For a text of
  whitespace only the score is exactly 0 when the sentiment collaborator returns the
  polarity 0 for it, as TextBlob does for a text without words: the scorer itself returns
  0 at once for the empty text only, and for whitespace all terms but the sentiment term
  vanish.
\<close>

theorem text_score_bounds:
  assumes "list_all is_space t \<longrightarrow> sentiment env t = 0"
  shows "0 \<le> analyze_text_engagement env t \<and> analyze_text_engagement env t \<le> 1 \<and>
         analyze_text_engagement env [] = 0 \<and>
         (list_all is_space t \<longrightarrow> analyze_text_engagement env t = 0)"
proof (intro conjI impI)
  show "0 \<le> analyze_text_engagement env t"
    by (rule text_score_nonneg)
  show "analyze_text_engagement env t \<le> 1"
    by (rule text_score_le_1)
  show "analyze_text_engagement env [] = 0"
    by (simp add: analyze_text_engagement_def)
next
  assume blank: "list_all is_space t"
  show "analyze_text_engagement env t = 0"
  proof (cases "t = []")
    case True
    then show ?thesis by (simp add: analyze_text_engagement_def)
  next
    case False
    from False blank have "analyze_text_engagement env t = min (\<bar>sentiment env t\<bar> * 0.3) 1"
      by (rule text_score_blank)
    with assms blank show ?thesis by simp
  qed
qed

lemma text_wow_blob: "analyze_text_engagement blob_env (ascii ''Wow!'') = 3/10"
  by (simp add: text_eval blob_env_def)

theorem text_score_bounds_witness:
  "list_all is_space [32, 9] \<and> sentiment blob_env [32, 9] = 0 \<and>
   analyze_text_engagement blob_env [32, 9] = 0 \<and>
   analyze_text_engagement blob_env [] = 0 \<and>
   \<not> list_all is_space (ascii ''Wow!'') \<and>
   analyze_text_engagement blob_env (ascii ''Wow!'') = 3/10 \<and>
   0 \<le> analyze_text_engagement blob_env (ascii ''Wow!'') \<and>
   analyze_text_engagement blob_env (ascii ''Wow!'') \<le> 1"
proof -
  have blank: "list_all is_space [32, 9]"
    by (simp add: is_space_def)
  have silent: "sentiment blob_env [32, 9] = 0"
    by (simp add: blob_env_def is_space_def)
  have words: "\<not> list_all is_space (ascii ''Wow!'')"
    by (simp add: ascii_def is_space_def)
  have on_blank: "list_all is_space [32, 9] \<longrightarrow> sentiment blob_env [32, 9] = 0"
    using silent by simp
  have on_words: "list_all is_space (ascii ''Wow!'') \<longrightarrow>
      sentiment blob_env (ascii ''Wow!'') = 0"
    using words by simp
  note spaces = text_score_bounds [OF on_blank]
  note wow = text_score_bounds [OF on_words]
  from spaces [THEN conjunct2, THEN conjunct2, THEN conjunct2, rule_format, OF blank]
  have zero: "analyze_text_engagement blob_env [32, 9] = 0" .
  from spaces [THEN conjunct2, THEN conjunct2, THEN conjunct1]
  have empty: "analyze_text_engagement blob_env [] = 0" .
  from wow [THEN conjunct1] wow [THEN conjunct2, THEN conjunct1]
  have bounds: "0 \<le> analyze_text_engagement blob_env (ascii ''Wow!'')"
    "analyze_text_engagement blob_env (ascii ''Wow!'') \<le> 1" .
  from blank silent zero empty words text_wow_blob bounds show ?thesis
    by (intro conjI) assumption+
qed

subsection \<open>Counting occurrences\<close>

lemma count_scan_le_occurrences: "count_scan k t p \<le> occurrences t p"
proof (induction t arbitrary: k)
  case Nil
  show ?case by simp
next
  case (Cons x xs)
  show ?case
  proof (cases k)
    case 0
    with Cons.IH [of 0] Cons.IH [of "length p - 1"] show ?thesis by simp
  next
    case (Suc j)
    with Cons.IH [of j] show ?thesis by simp
  qed
qed

lemma unbordered_no_overlap:
  assumes "unbordered p" and "prefix p xs" and "0 < i" and "i < length p"
  shows "\<not> prefix p (drop i xs)"
proof
  assume "prefix p (drop i xs)"
  then obtain zs where later: "drop i xs = p @ zs"
    by (auto simp: prefix_def)
  from assms(2) obtain ys where first: "xs = p @ ys"
    by (auto simp: prefix_def)
  let ?k = "length p - i"
  have "drop i p = take ?k (drop i xs)"
    using assms(4) by (simp add: first)
  also have "\<dots> = take ?k p"
    by (simp add: later)
  finally have "take ?k p = drop (length p - ?k) p"
    using assms(4) by simp
  moreover have "?k \<in> set [1..<length p]"
    using assms(3,4) by auto
  ultimately show False
    using assms(1) by (auto simp: unbordered_def list_all_iff)
qed

lemma count_scan_occurrences:
  assumes "unbordered p"
  shows "(\<forall>i<k. \<not> prefix p (drop i t)) \<Longrightarrow> count_scan k t p = occurrences t p"
proof (induction t arbitrary: k)
  case Nil
  show ?case by simp
next
  case (Cons x xs)
  show ?case
  proof (cases k)
    case (Suc j)
    from Cons.prems Suc have "\<not> prefix p (x # xs)"
      by (metis drop0 zero_less_Suc)
    moreover have "\<forall>i<j. \<not> prefix p (drop i xs)"
    proof (intro allI impI)
      fix i assume "i < j"
      then have "Suc i < k" using Suc by simp
      with Cons.prems have "\<not> prefix p (drop (Suc i) (x # xs))" by blast
      then show "\<not> prefix p (drop i xs)" by simp
    qed
    ultimately show ?thesis
      using Suc Cons.IH [of j] by simp
  next
    case 0
    show ?thesis
    proof (cases "prefix p (x # xs)")
      case False
      with 0 Cons.IH [of 0] show ?thesis by simp
    next
      case True
      have "\<forall>i<length p - 1. \<not> prefix p (drop i xs)"
      proof (intro allI impI)
        fix i assume "i < length p - 1"
        then have "0 < Suc i" and "Suc i < length p" by simp_all
        with assms True have "\<not> prefix p (drop (Suc i) (x # xs))"
          by (rule unbordered_no_overlap)
        then show "\<not> prefix p (drop i xs)" by simp
      qed
      then have "count_scan (length p - 1) xs p = occurrences xs p"
        by (rule Cons.IH)
      with 0 True show ?thesis by simp
    qed
  qed
qed

lemma py_count_le_occurrences: "p \<noteq> [] \<Longrightarrow> py_count t p \<le> occurrences t p"
  by (simp add: py_count_def count_scan_le_occurrences)

lemma py_count_unbordered:
  assumes "p \<noteq> []" and "unbordered p"
  shows "py_count t p = occurrences t p"
  using assms(1) count_scan_occurrences [OF assms(2), of 0 t] by (simp add: py_count_def)

text \<open>The scan equations of \<^verbatim>\<open>str.count\<close>: behind a match the scan resumes after it.\<close>

lemma count_scan_skip: "count_scan k t p = count_scan 0 (drop k t) p"
proof (induction t arbitrary: k)
  case Nil
  show ?case by simp
next
  case (Cons x xs)
  show ?case
  proof (cases k)
    case 0
    then show ?thesis by simp
  next
    case (Suc j)
    with Cons.IH [of j] show ?thesis by simp
  qed
qed

lemma py_count_empty_text: "p \<noteq> [] \<Longrightarrow> py_count [] p = 0"
  by (simp add: py_count_def)

lemma py_count_match:
  assumes "p \<noteq> []" and "prefix p u"
  shows "py_count u p = 1 + py_count (drop (length p) u) p"
proof -
  from assms obtain x xs where u: "u = x # xs"
    by (cases u) auto
  have "drop (length p) (x # xs) = drop (length p - 1) xs"
    using assms(1) by (cases p) simp_all
  moreover have "count_scan 0 (x # xs) p = 1 + count_scan 0 (drop (length p - 1) xs) p"
    using assms(2) count_scan_skip [of "length p - 1" xs p] by (simp add: u)
  ultimately show ?thesis
    using assms(1) by (simp add: py_count_def u)
qed

lemma py_count_no_match:
  assumes "p \<noteq> []" and "\<not> prefix p (x # u)"
  shows "py_count (x # u) p = py_count u p"
  using assms by (simp add: py_count_def)

lemma unbordered_patterns:
  "unbordered (ascii ''lmao'')" "unbordered [128514]" "unbordered [128516]"
  "unbordered [128518]" "\<not> unbordered (ascii ''haha'')" "\<not> unbordered (ascii ''lol'')"
  by (simp_all add: unbordered_def ascii_def upt_conv_Cons)

lemma laughter_samples:
  "laughter_count (ascii ''hahaha'') = 1"
  "laughter_occurrences (ascii ''hahaha'') = 2"
  "laughter_count (ascii ''LOLmao'') = 2"
  "py_lower (ascii ''LOLmao'') = ascii ''lolmao''"
  "py_count (ascii ''lolmao'') (ascii ''lmao'') = 1"
  "occurrences (ascii ''lolmao'') (ascii ''lmao'') = 1"
  "laughter_contribution (ascii ''lolmao'') = 1/5"
  by (simp_all add: text_eval laughter_occurrences_def)

text \<open>
  C8, as stated, fails where occurrences of one pattern overlap: \<open>haha\<close> occurs in
  \<open>hahaha\<close> at two overlapping positions, which would contribute 0.2, and the scorer
  counts one occurrence and contributes 0.1.
\<close>

theorem overlapping_laughter_counted_once:
  "laughter_contribution (ascii ''hahaha'') = 1/10 \<and>
   min (real (laughter_occurrences (ascii ''hahaha'')) * 0.1) 0.2 = 1/5"
  by (simp add: laughter_contribution_def laughter_samples)

text \<open>
  C8, amended. The laughter contribution is \<open>min (count * 0.1) 0.2\<close>, where the count is
  the sum over the six patterns of \<open>str.count\<close> of the pattern in the lower-cased text.
  For each pattern \<open>str.count\<close> is the count of a scan from the left that resumes behind
  each match: it is 0 on the empty text; on a text that starts with the pattern it is one
  more than on the text behind that occurrence; on a text that does not start with the
  pattern it is what it is on the text without its first code point. So overlapping
  occurrences of one pattern are not counted, and \<open>haha\<close> counts once in \<open>hahaha\<close>;
  occurrences of different patterns may overlap and all count. The count of a pattern is
  at most the number of positions where it occurs, and equal to it for the patterns that
  cannot overlap themselves (\<open>lmao\<close> and the three emoji). Texts with the same
  lower-cased form have the same contribution, and the contribution is one summand of the
  score of a non-empty text.
\<close>

theorem laughter_markers:
  "laughter_contribution t =
     min (real (\<Sum>p\<leftarrow>laughter_patterns. py_count (py_lower t) p) * 0.1) 0.2 \<and>
   (\<forall>p \<in> set laughter_patterns.
      py_count [] p = 0 \<and>
      (\<forall>v. prefix p v \<longrightarrow> py_count v p = 1 + py_count (drop (length p) v) p) \<and>
      (\<forall>x v. \<not> prefix p (x # v) \<longrightarrow> py_count (x # v) p = py_count v p)) \<and>
   (\<forall>p \<in> set laughter_patterns.
      py_count (py_lower t) p \<le> occurrences (py_lower t) p \<and>
      (unbordered p \<longrightarrow> py_count (py_lower t) p = occurrences (py_lower t) p)) \<and>
   (py_lower u = py_lower t \<longrightarrow> laughter_contribution u = laughter_contribution t) \<and>
   (t \<noteq> [] \<longrightarrow>
      analyze_text_engagement env t =
        min (\<bar>sentiment env t\<bar> * 0.3 + min (real (questions t) * 0.2) 0.3 +
             min (real (exclamations t) * 0.15) 0.2 + laughter_contribution t +
             (if 5 \<le> length (py_split t) \<and> length (py_split t) \<le> 50 then 0.1 else 0)) 1)"
proof (intro conjI ballI impI allI)
  show "laughter_contribution t =
     min (real (\<Sum>p\<leftarrow>laughter_patterns. py_count (py_lower t) p) * 0.1) 0.2"
    by (simp only: laughter_contribution_def laughter_count_def)
next
  fix p assume "p \<in> set laughter_patterns"
  then have p: "p \<noteq> []"
    using laughter_heads by blast
  from p show "py_count [] p = 0"
    by (rule py_count_empty_text)
  show "py_count v p = 1 + py_count (drop (length p) v) p" if "prefix p v" for v
    using p that by (rule py_count_match)
  show "py_count (x # v) p = py_count v p" if "\<not> prefix p (x # v)" for x v
    using p that by (rule py_count_no_match)
next
  fix p assume "p \<in> set laughter_patterns"
  then have p: "p \<noteq> []"
    using laughter_heads by blast
  then show "py_count (py_lower t) p \<le> occurrences (py_lower t) p"
    by (rule py_count_le_occurrences)
  show "py_count (py_lower t) p = occurrences (py_lower t) p" if "unbordered p"
    using p that by (rule py_count_unbordered)
next
  assume "py_lower u = py_lower t"
  then show "laughter_contribution u = laughter_contribution t"
    by (simp add: laughter_contribution_def laughter_count_def)
next
  assume "t \<noteq> []"
  then show "analyze_text_engagement env t =
        min (\<bar>sentiment env t\<bar> * 0.3 + min (real (questions t) * 0.2) 0.3 +
             min (real (exclamations t) * 0.15) 0.2 + laughter_contribution t +
             (if 5 \<le> length (py_split t) \<and> length (py_split t) \<le> 50 then 0.1 else 0)) 1"
    by (simp only: text_score_eq if_False)
qed

theorem laughter_markers_witness:
  "ascii ''haha'' \<in> set laughter_patterns \<and>
   prefix (ascii ''haha'') (ascii ''hahaha'') \<and>
   drop (length (ascii ''haha'')) (ascii ''hahaha'') = [104, 97] \<and>
   \<not> prefix (ascii ''haha'') [104, 97] \<and> \<not> prefix (ascii ''haha'') [97] \<and>
   py_count (ascii ''hahaha'') (ascii ''haha'') = 1 \<and>
   occurrences (ascii ''hahaha'') (ascii ''haha'') = 2 \<and>
   ascii ''lmao'' \<in> set laughter_patterns \<and> unbordered (ascii ''lmao'') \<and>
   py_count (py_lower (ascii ''LOLmao'')) (ascii ''lmao'') = 1 \<and>
   occurrences (py_lower (ascii ''LOLmao'')) (ascii ''lmao'') = 1 \<and>
   py_lower (ascii ''lolmao'') = py_lower (ascii ''LOLmao'') \<and>
   laughter_contribution (ascii ''lolmao'') = 1/5 \<and>
   laughter_contribution (ascii ''LOLmao'') = 1/5 \<and>
   ascii ''LOLmao'' \<noteq> [] \<and>
   analyze_text_engagement quiet_env (ascii ''LOLmao'') = 1/5"
proof -
  note markers = laughter_markers [of "ascii ''LOLmao''" "ascii ''lolmao''" quiet_env]
  have haha: "ascii ''haha'' \<in> set laughter_patterns"
    by (simp add: laughter_patterns_def)
  note scan = markers [THEN conjunct2, THEN conjunct1, rule_format, OF haha]
  have starts: "prefix (ascii ''haha'') (ascii ''hahaha'')"
    by (simp add: ascii_def)
  have behind: "drop (length (ascii ''haha'')) (ascii ''hahaha'') = [104, 97]"
    by (simp add: ascii_def)
  have no_ha: "\<not> prefix (ascii ''haha'') [104, 97]"
    and no_a: "\<not> prefix (ascii ''haha'') [97]"
    by (simp_all add: ascii_def)
  from scan [THEN conjunct2, THEN conjunct2, rule_format, OF no_a]
  have "py_count [97] (ascii ''haha'') = py_count [] (ascii ''haha'')" .
  also have "\<dots> = 0"
    by (rule scan [THEN conjunct1])
  finally have count_a: "py_count [97] (ascii ''haha'') = 0" .
  from scan [THEN conjunct2, THEN conjunct2, rule_format, OF no_ha]
  have "py_count [104, 97] (ascii ''haha'') = py_count [97] (ascii ''haha'')" .
  with count_a have count_ha: "py_count [104, 97] (ascii ''haha'') = 0"
    by simp
  from scan [THEN conjunct2, THEN conjunct1, rule_format, OF starts]
  have once: "py_count (ascii ''hahaha'') (ascii ''haha'') = 1"
    by (simp add: behind count_ha)
  have twice: "occurrences (ascii ''hahaha'') (ascii ''haha'') = 2"
    by (simp add: ascii_def)
  have member: "ascii ''lmao'' \<in> set laughter_patterns"
    by (simp add: laughter_patterns_def)
  have lower: "py_lower (ascii ''lolmao'') = py_lower (ascii ''LOLmao'')"
    by (simp add: py_lower_def lower_char_def ascii_def)
  have nonempty: "ascii ''LOLmao'' \<noteq> []"
    by (simp add: ascii_def)
  from markers [THEN conjunct2, THEN conjunct2, THEN conjunct1, rule_format, OF member]
  have same: "py_count (py_lower (ascii ''LOLmao'')) (ascii ''lmao'') =
      occurrences (py_lower (ascii ''LOLmao'')) (ascii ''lmao'')"
    using unbordered_patterns(1) by blast
  have one: "occurrences (py_lower (ascii ''LOLmao'')) (ascii ''lmao'') = 1"
    by (simp add: laughter_samples)
  from markers [THEN conjunct2, THEN conjunct2, THEN conjunct2, THEN conjunct1, rule_format,
      OF lower]
  have contribution: "laughter_contribution (ascii ''LOLmao'') = 1/5"
    by (simp add: laughter_samples)
  from markers [THEN conjunct2, THEN conjunct2, THEN conjunct2, THEN conjunct2, rule_format,
      OF nonempty]
  have "analyze_text_engagement quiet_env (ascii ''LOLmao'') = 1/5"
    by (simp add: contribution) (simp add: quiet_env_def questions_def exclamations_def
        py_split_def ascii_def is_space_def)
  with haha starts behind no_ha no_a once twice member unbordered_patterns(1) same one lower
    contribution nonempty laughter_samples(7)
  show ?thesis
    by (intro conjI) (assumption | simp)+
qed

subsection \<open>Claims about the fused score\<close>

lemma fused_score_eq:
  "calculate_engagement_score env t audio sr s e =
     min (0.4 * analyze_text_engagement env t +
          0.6 * analyze_audio_engagement env audio sr s e) 1"
  by (simp add: calculate_engagement_score_def Let_def mult.commute)

text \<open>
  C2. For every text, waveform, sample rate and time span for which the frames of the
  spectral-centroid and zero-crossing-rate collaborators are non-negative, the fused score
  is \<open>clamp (0.4 * text_score + 0.6 * audio_score) 0 1\<close>, with the text and audio scores
  of that text and time span; and this is the \<open>engagement_score\<close> of the entry scored
  for a candidate with that time span whose stripped text is that text.
\<close>

theorem fusion_weighting:
  assumes "\<forall>x \<in> set (spectral_centroid env (segment_audio audio sr s e) sr). 0 \<le> x"
      and "\<forall>x \<in> set (zero_crossing_rate env (segment_audio audio sr s e)). 0 \<le> x"
  shows "calculate_engagement_score env t audio sr s e =
           clamp (0.4 * analyze_text_engagement env t +
                  0.6 * analyze_audio_engagement env audio sr s e) 0 1 \<and>
         (cand_start c = s \<and> cand_end c = e \<and> py_strip (cand_text c) = t \<longrightarrow>
            engagement_score (score_candidate env audio sr c) =
              clamp (0.4 * analyze_text_engagement env t +
                     0.6 * analyze_audio_engagement env audio sr s e) 0 1)"
proof -
  have "0 \<le> analyze_text_engagement env t"
    by (rule text_score_nonneg)
  moreover have "0 \<le> analyze_audio_engagement env audio sr s e"
    using assms by (rule audio_score_nonneg)
  ultimately have "0 \<le> 0.4 * analyze_text_engagement env t +
          0.6 * analyze_audio_engagement env audio sr s e"
    by simp
  then have fused: "calculate_engagement_score env t audio sr s e =
           clamp (0.4 * analyze_text_engagement env t +
                  0.6 * analyze_audio_engagement env audio sr s e) 0 1"
    by (simp add: fused_score_eq clamp_def)
  have "engagement_score (score_candidate env audio sr c) =
      calculate_engagement_score env t audio sr s e"
    if "cand_start c = s \<and> cand_end c = e \<and> py_strip (cand_text c) = t"
    using that by (auto simp: score_candidate_def Let_def)
  with fused show ?thesis
    by simp
qed

lemma text_wow: "analyze_text_engagement loud_env (ascii ''Wow!'') = 3/10"
  by (simp add: text_eval loud_env_def)

lemma strip_wow: "py_strip (ascii '' Wow! '') = ascii ''Wow!''"
  by (simp add: py_strip_def is_space_def ascii_def)

theorem fusion_weighting_witness:
  "list_all (\<lambda>x. 0 \<le> x) (spectral_centroid loud_env (segment_audio tone 2 (3/5) (19/10)) 2) \<and>
   list_all (\<lambda>x. 0 \<le> x) (zero_crossing_rate loud_env (segment_audio tone 2 (3/5) (19/10))) \<and>
   calculate_engagement_score loud_env (ascii ''Wow!'') tone 2 (3/5) (19/10) =
     clamp (0.4 * (3/10) + 0.6 * (13/20)) 0 1 \<and>
   calculate_engagement_score loud_env (ascii ''Wow!'') tone 2 (3/5) (19/10) = 51/100 \<and>
   engagement_score (score_candidate loud_env tone 2
     \<lparr>cand_start = 3/5, cand_end = 19/10, cand_text = ascii '' Wow! '', cand_source = None\<rparr>) =
     51/100"
proof -
  let ?c = "\<lparr>cand_start = 3/5, cand_end = 19/10, cand_text = ascii '' Wow! '',
    cand_source = None\<rparr>"
  have c: "\<forall>x \<in> set (spectral_centroid loud_env (segment_audio tone 2 (3/5) (19/10)) 2). 0 \<le> x"
    by (simp add: loud_env_def)
  have z: "\<forall>x \<in> set (zero_crossing_rate loud_env (segment_audio tone 2 (3/5) (19/10))). 0 \<le> x"
    by (simp add: loud_env_def)
  note fusion = fusion_weighting [OF c z, of "ascii ''Wow!''" ?c]
  from fusion [THEN conjunct1]
  have fused: "calculate_engagement_score loud_env (ascii ''Wow!'') tone 2 (3/5) (19/10) =
     clamp (0.4 * (3/10) + 0.6 * (13/20)) 0 1"
    by (simp only: text_wow audio_tone)
  then have total: "calculate_engagement_score loud_env (ascii ''Wow!'') tone 2 (3/5) (19/10) = 51/100"
    by (simp add: clamp_def)
  have "cand_start ?c = 3/5 \<and> cand_end ?c = 19/10 \<and> py_strip (cand_text ?c) = ascii ''Wow!''"
    by (simp add: strip_wow)
  from fusion [THEN conjunct2, rule_format, OF this]
  have "engagement_score (score_candidate loud_env tone 2 ?c) =
     clamp (0.4 * (3/10) + 0.6 * (13/20)) 0 1"
    by (simp only: text_wow audio_tone)
  then have entry: "engagement_score (score_candidate loud_env tone 2 ?c) = 51/100"
    by (simp add: clamp_def)
  from c z have
    "list_all (\<lambda>x. 0 \<le> x) (spectral_centroid loud_env (segment_audio tone 2 (3/5) (19/10)) 2)"
    "list_all (\<lambda>x. 0 \<le> x) (zero_crossing_rate loud_env (segment_audio tone 2 (3/5) (19/10)))"
    by (simp_all only: list_all_iff)
  then show ?thesis
    using fused total entry by (intro conjI) assumption+
qed

end
